theory Spec2Isabelle
  imports Main "HOL-Library.Word"
begin

section \<open>NanoPool: the escrow contract of contracts/NanoPool.sol\<close>

text \<open>
  Solidity values are modelled at their width: an \<open>address\<close> is a 160-bit word, a
  \<open>uint256\<close> a 256-bit word. A Solidity mapping is a total function (every key reads
  as zero until written), a dynamic array a list. Solidity 0.8 arithmetic is checked: an
  addition that would exceed \<open>2^256 - 1\<close> aborts the call with a panic.
\<close>

type_synonym address = "160 word"
type_synonym uint256 = "256 word"
type_synonym bytes32 = "256 word"
type_synonym byte = "8 word"

record Pool =
  initiator :: address
  beneficiary :: address
  description :: string
  goalAmount :: uint256
  currentAmount :: uint256
  deadlineTimestamp :: uint256
  goalAchieved :: bool
  fundsDisbursed :: bool
  contributions :: "address \<Rightarrow> uint256"
  contributors :: "address list"

text \<open>
  The contract's storage: \<open>owner\<close> is the \<open>_owner\<close> slot of the inherited Ownable,
  \<open>entered\<close> says that the \<open>_status\<close> slot of the inherited ReentrancyGuard holds
  \<open>_ENTERED\<close>, the other two fields are NanoPool's own.
\<close>

record NanoPool =
  owner :: address
  entered :: bool
  poolIdCounter :: uint256
  pools :: "uint256 \<Rightarrow> Pool"

text \<open>
  Every \<open>require\<close> of the source is a constructor of \<open>error\<close>, named as the
  specification names the failure; \<open>revert_message\<close> gives the string the source reverts
  with. \<open>ArithmeticOverflow\<close> is the panic of checked arithmetic, \<open>ReentrantCall\<close>
  the rejection by the \<open>nonReentrant\<close> modifier, \<open>NotOwner\<close> and \<open>ZeroNewOwner\<close>
  the rejections of the inherited Ownable.
\<close>

datatype error =
    InvalidBeneficiary
  | InvalidGoalAmount
  | InvalidDeadline
  | PoolNotFound
  | DeadlinePassed
  | GoalAlreadyAchieved
  | ZeroContribution
  | Unauthorized
  | GoalNotAchieved
  | AlreadyDisbursed
  | DeadlineNotReached
  | GoalWasAchieved
  | NoContribution
  | TransferFailed
  | RefundFailed
  | ArithmeticOverflow
  | ReentrantCall
  | NotOwner
  | ZeroNewOwner
  | DeploymentFailed

fun revert_message :: "error \<Rightarrow> string" where
  "revert_message InvalidBeneficiary = ''Beneficiary cannot be zero address''"
| "revert_message InvalidGoalAmount = ''Goal amount must be greater than zero''"
| "revert_message InvalidDeadline = ''Deadline must be in the future''"
| "revert_message PoolNotFound = ''Pool does not exist''"
| "revert_message DeadlinePassed = ''Pool deadline has passed''"
| "revert_message GoalAlreadyAchieved = ''Pool goal already achieved''"
| "revert_message ZeroContribution = ''Contribution amount must be greater than zero''"
| "revert_message Unauthorized = ''Only pool initiator or contract owner can disburse funds''"
| "revert_message GoalNotAchieved = ''Pool goal not achieved''"
| "revert_message AlreadyDisbursed = ''Funds already disbursed''"
| "revert_message DeadlineNotReached = ''Pool deadline not yet passed''"
| "revert_message GoalWasAchieved = ''Pool goal was achieved, no refunds available''"
| "revert_message NoContribution = ''No contribution found''"
| "revert_message TransferFailed = ''Transfer to beneficiary failed''"
| "revert_message RefundFailed = ''Refund transfer failed''"
| "revert_message ArithmeticOverflow = ''panic 0x11''"
| "revert_message ReentrantCall = ''ReentrancyGuard: reentrant call''"
| "revert_message NotOwner = ''Ownable: caller is not the owner''"
| "revert_message ZeroNewOwner = ''Ownable: new owner is the zero address''"
| "revert_message DeploymentFailed = ''Create2Factory: deployment failed''"

datatype event =
    PoolCreated uint256 address address string uint256 uint256
  | ContributionMade uint256 address uint256 uint256
  | GoalAchieved uint256 uint256
  | FundsDisbursed uint256 address uint256
  | RefundClaimed uint256 address uint256
  | OwnershipTransferred address address
  | ContractDeployed address bytes32

text \<open>
  A function body returns its outcome (\<open>Inl\<close> the failure, \<open>Inr\<close> the returned value
  and the events emitted) together with the storage as it stands when the body stops:
  on a failure that is the storage at the failing \<open>require\<close>, with every write made
  before it. \<open>transact\<close> is the revert of the execution environment: a failed call
  leaves the storage it started from.
\<close>

type_synonym 'a outcome = "(error + 'a \<times> event list) \<times> NanoPool"

definition transact :: "(NanoPool \<Rightarrow> 'a outcome) \<Rightarrow> NanoPool \<Rightarrow> 'a outcome" where
  "transact body s =
     (case body s of
        (Inl e, _) \<Rightarrow> (Inl e, s)
      | (Inr r, s') \<Rightarrow> (Inr r, s'))"

definition checked_add :: "uint256 \<Rightarrow> uint256 \<Rightarrow> uint256 option" where
  "checked_add a b = (if unat a + unat b < 2 ^ 256 then Some (a + b) else None)"

text \<open>
  The \<open>nonReentrant\<close> modifier: reject when the guard is entered, otherwise enter,
  run the body and leave.
\<close>

definition nonReentrant :: "(NanoPool \<Rightarrow> 'a outcome) \<Rightarrow> NanoPool \<Rightarrow> 'a outcome" where
  "nonReentrant body s =
     (if entered s then (Inl ReentrantCall, s)
      else (case body (s\<lparr>entered := True\<rparr>) of
              (Inl e, s') \<Rightarrow> (Inl e, s')
            | (Inr r, s') \<Rightarrow> (Inr r, s'\<lparr>entered := False\<rparr>)))"

definition store_pool :: "uint256 \<Rightarrow> Pool \<Rightarrow> NanoPool \<Rightarrow> NanoPool" where
  "store_pool poolId pool s = s\<lparr>pools := (pools s)(poolId := pool)\<rparr>"

definition empty_pool :: Pool where
  "empty_pool =
     \<lparr>initiator = 0, beneficiary = 0, description = [], goalAmount = 0,
      currentAmount = 0, deadlineTimestamp = 0, goalAchieved = False,
      fundsDisbursed = False, contributions = (\<lambda>_. 0), contributors = []\<rparr>"

text \<open>The constructor: the deployer becomes the owner, pool ids start at 1.\<close>

definition constructor :: "address \<Rightarrow> NanoPool" where
  "constructor deployer =
     \<lparr>owner = deployer, entered = False, poolIdCounter = 1, pools = (\<lambda>_. empty_pool)\<rparr>"

text \<open>
  \<open>createPool\<close>: \<open>sender\<close> is \<open>msg.sender\<close>, \<open>now\<close> is \<open>block.timestamp\<close>.
  \<open>_poolIdCounter++\<close> is a checked increment. The new pool's \<open>contributions\<close>
  mapping is not written.
\<close>

definition createPool ::
  "address \<Rightarrow> uint256 \<Rightarrow> address \<Rightarrow> string \<Rightarrow> uint256 \<Rightarrow> uint256 \<Rightarrow> NanoPool \<Rightarrow> uint256 outcome" where
  "createPool sender now ben desc goal deadline s =
     (if ben = 0 then (Inl InvalidBeneficiary, s)
      else if \<not> goal > 0 then (Inl InvalidGoalAmount, s)
      else if \<not> deadline > now then (Inl InvalidDeadline, s)
      else (case checked_add (poolIdCounter s) 1 of
              None \<Rightarrow> (Inl ArithmeticOverflow, s)
            | Some next_id \<Rightarrow>
                let poolId = poolIdCounter s;
                    s1 = s\<lparr>poolIdCounter := next_id\<rparr>;
                    newPool = (pools s1 poolId)
                      \<lparr>initiator := sender, beneficiary := ben, description := desc,
                       goalAmount := goal, currentAmount := 0,
                       deadlineTimestamp := deadline, goalAchieved := False,
                       fundsDisbursed := False, contributors := []\<rparr>
                in (Inr (poolId, [PoolCreated poolId sender ben desc goal deadline]),
                    store_pool poolId newPool s1)))"

text \<open>\<open>contribute\<close>: \<open>amount\<close> is \<open>msg.value\<close>.\<close>

definition contribute_body ::
  "address \<Rightarrow> uint256 \<Rightarrow> uint256 \<Rightarrow> uint256 \<Rightarrow> NanoPool \<Rightarrow> unit outcome" where
  "contribute_body sender now amount poolId s =
     (let pool = pools s poolId in
      if initiator pool = 0 then (Inl PoolNotFound, s)
      else if \<not> now < deadlineTimestamp pool then (Inl DeadlinePassed, s)
      else if goalAchieved pool then (Inl GoalAlreadyAchieved, s)
      else if \<not> amount > 0 then (Inl ZeroContribution, s)
      else
        let pool1 = (if contributions pool sender = 0
                     then pool\<lparr>contributors := contributors pool @ [sender]\<rparr>
                     else pool)
        in (case checked_add (contributions pool1 sender) amount of
              None \<Rightarrow> (Inl ArithmeticOverflow, store_pool poolId pool1 s)
            | Some mine \<Rightarrow>
                let pool2 = pool1\<lparr>contributions := (contributions pool1)(sender := mine)\<rparr>
                in (case checked_add (currentAmount pool2) amount of
                      None \<Rightarrow> (Inl ArithmeticOverflow, store_pool poolId pool2 s)
                    | Some newTotal \<Rightarrow>
                        let pool3 = pool2\<lparr>currentAmount := newTotal\<rparr>;
                            made = ContributionMade poolId sender amount newTotal
                        in if currentAmount pool3 \<ge> goalAmount pool3 \<and> \<not> goalAchieved pool3
                           then (Inr ((), [made, GoalAchieved poolId newTotal]),
                                 store_pool poolId (pool3\<lparr>goalAchieved := True\<rparr>) s)
                           else (Inr ((), [made]), store_pool poolId pool3 s))))"

definition contribute ::
  "address \<Rightarrow> uint256 \<Rightarrow> uint256 \<Rightarrow> uint256 \<Rightarrow> NanoPool \<Rightarrow> unit outcome" where
  "contribute sender now amount poolId = nonReentrant (contribute_body sender now amount poolId)"

text \<open>
  \<open>disburseFunds\<close> and \<open>claimRefund\<close> end in a low-level call that sends value to
  an address outside the contract and hands it control. While it has control the
  recipient may call back into the contract; when it returns, the source reads the
  \<open>success\<close> flag. The bodies take that call as \<open>transfer\<close>: from the storage at the
  time of the call to the flag, the events logged meanwhile, and the storage when
  control comes back. Balances are the execution environment's and not part of the
  storage.
\<close>

type_synonym transfer = "NanoPool \<Rightarrow> bool \<times> event list \<times> NanoPool"

definition disburseFunds_body ::
  "address \<Rightarrow> uint256 \<Rightarrow> transfer \<Rightarrow> uint256 \<Rightarrow> NanoPool \<Rightarrow> unit outcome" where
  "disburseFunds_body sender now transfer poolId s =
     (let pool = pools s poolId in
      if initiator pool = 0 then (Inl PoolNotFound, s)
      else if \<not> (sender = initiator pool \<or> sender = owner s) then (Inl Unauthorized, s)
      else if \<not> goalAchieved pool then (Inl GoalNotAchieved, s)
      else if fundsDisbursed pool then (Inl AlreadyDisbursed, s)
      else if \<not> now \<ge> deadlineTimestamp pool then (Inl DeadlineNotReached, s)
      else
        let pool1 = pool\<lparr>fundsDisbursed := True\<rparr>;
            s1 = store_pool poolId pool1 s;
            (success, logged, s2) = transfer s1
        in if \<not> success then (Inl TransferFailed, s2)
           else (Inr ((), logged @ [FundsDisbursed poolId (beneficiary (pools s2 poolId))
                                      (currentAmount (pools s2 poolId))]), s2))"

definition claimRefund_body ::
  "address \<Rightarrow> uint256 \<Rightarrow> transfer \<Rightarrow> uint256 \<Rightarrow> NanoPool \<Rightarrow> unit outcome" where
  "claimRefund_body sender now transfer poolId s =
     (let pool = pools s poolId in
      if initiator pool = 0 then (Inl PoolNotFound, s)
      else if \<not> now \<ge> deadlineTimestamp pool then (Inl DeadlineNotReached, s)
      else if goalAchieved pool then (Inl GoalWasAchieved, s)
      else
        let contributionAmount = contributions pool sender in
        if \<not> contributionAmount > 0 then (Inl NoContribution, s)
        else
          let pool1 = pool\<lparr>contributions := (contributions pool)(sender := 0)\<rparr>;
              s1 = store_pool poolId pool1 s;
              (success, logged, s2) = transfer s1
          in if \<not> success then (Inl RefundFailed, s2)
             else (Inr ((), logged @ [RefundClaimed poolId sender contributionAmount]), s2))"

text \<open>
  A recipient that makes no call back into the contract: it returns \<open>sent\<close>, logs
  nothing and leaves the storage alone. \<open>disburseFunds\<close> and \<open>claimRefund\<close> are the
  two functions with such a recipient; \<open>disburseFunds_to\<close> and \<open>claimRefund_to\<close>, defined
  once sequences of calls are, are the same functions with a recipient that calls back.
\<close>

definition plain_transfer :: "bool \<Rightarrow> transfer" where
  "plain_transfer sent s = (sent, [], s)"

definition disburseFunds ::
  "address \<Rightarrow> uint256 \<Rightarrow> bool \<Rightarrow> uint256 \<Rightarrow> NanoPool \<Rightarrow> unit outcome" where
  "disburseFunds sender now sent poolId =
     nonReentrant (disburseFunds_body sender now (plain_transfer sent) poolId)"

definition claimRefund ::
  "address \<Rightarrow> uint256 \<Rightarrow> bool \<Rightarrow> uint256 \<Rightarrow> NanoPool \<Rightarrow> unit outcome" where
  "claimRefund sender now sent poolId =
     nonReentrant (claimRefund_body sender now (plain_transfer sent) poolId)"

text \<open>The read-only accessors.\<close>

definition getPoolDetails ::
  "uint256 \<Rightarrow> NanoPool \<Rightarrow>
     error + address \<times> address \<times> string \<times> uint256 \<times> uint256 \<times> uint256 \<times> bool \<times> bool" where
  "getPoolDetails poolId s =
     (let pool = pools s poolId in
      if initiator pool = 0 then Inl PoolNotFound
      else Inr (initiator pool, beneficiary pool, description pool, goalAmount pool,
                currentAmount pool, deadlineTimestamp pool, goalAchieved pool,
                fundsDisbursed pool))"

definition getContribution :: "uint256 \<Rightarrow> address \<Rightarrow> NanoPool \<Rightarrow> error + uint256" where
  "getContribution poolId contributor s =
     (let pool = pools s poolId in
      if initiator pool = 0 then Inl PoolNotFound
      else Inr (contributions pool contributor))"

definition getContributors :: "uint256 \<Rightarrow> NanoPool \<Rightarrow> error + address list" where
  "getContributors poolId s =
     (let pool = pools s poolId in
      if initiator pool = 0 then Inl PoolNotFound
      else Inr (contributors pool))"

text \<open>
  NanoPool inherits two more state-changing functions from Ownable (OpenZeppelin
  contracts 4.9.6, imported at line 5 of the source; the library's code is not part of
  the repository). They write \<open>_owner\<close> and nothing else.
\<close>

definition transferOwnership :: "address \<Rightarrow> address \<Rightarrow> NanoPool \<Rightarrow> unit outcome" where
  "transferOwnership sender newOwner s =
     (if \<not> owner s = sender then (Inl NotOwner, s)
      else if \<not> newOwner \<noteq> 0 then (Inl ZeroNewOwner, s)
      else (Inr ((), [OwnershipTransferred (owner s) newOwner]), s\<lparr>owner := newOwner\<rparr>))"

definition renounceOwnership :: "address \<Rightarrow> NanoPool \<Rightarrow> unit outcome" where
  "renounceOwnership sender s =
     (if \<not> owner s = sender then (Inl NotOwner, s)
      else (Inr ((), [OwnershipTransferred (owner s) 0]), s\<lparr>owner := 0\<rparr>))"

section \<open>Sequences of calls\<close>

text \<open>
  A transaction is a call of one of the contract's six state-changing functions, with its
  \<open>msg.sender\<close> and the \<open>block.timestamp\<close> it runs at. \<open>Contribute\<close> carries the
  pool id and \<open>msg.value\<close>; \<open>DisburseFunds\<close> and \<open>ClaimRefund\<close> carry the pool id
  and the result of their outbound transfer. A call returns the new pool id
  (\<open>createPool\<close>) or nothing. \<open>exec\<close> runs one transaction and \<open>run\<close> a sequence
  of them, each on the storage the one before left; a reverted transaction leaves the
  storage as it was.
\<close>

datatype call =
    CreatePool address string uint256 uint256
  | Contribute uint256 uint256
  | DisburseFunds uint256 bool
  | ClaimRefund uint256 bool
  | TransferOwnership address
  | RenounceOwnership

datatype tx = Tx address uint256 call

definition returning :: "('a \<Rightarrow> 'b) \<Rightarrow> 'a outcome \<Rightarrow> 'b outcome" where
  "returning f out =
     (case out of
        (Inl e, s) \<Rightarrow> (Inl e, s)
      | (Inr (r, evs), s) \<Rightarrow> (Inr (f r, evs), s))"

fun call_body :: "address \<Rightarrow> uint256 \<Rightarrow> call \<Rightarrow> NanoPool \<Rightarrow> uint256 option outcome" where
  "call_body sender now (CreatePool ben desc goal deadline) s =
     returning Some (createPool sender now ben desc goal deadline s)"
| "call_body sender now (Contribute poolId amount) s =
     returning (\<lambda>_. None) (contribute sender now amount poolId s)"
| "call_body sender now (DisburseFunds poolId sent) s =
     returning (\<lambda>_. None) (disburseFunds sender now sent poolId s)"
| "call_body sender now (ClaimRefund poolId sent) s =
     returning (\<lambda>_. None) (claimRefund sender now sent poolId s)"
| "call_body sender now (TransferOwnership newOwner) s =
     returning (\<lambda>_. None) (transferOwnership sender newOwner s)"
| "call_body sender now RenounceOwnership s =
     returning (\<lambda>_. None) (renounceOwnership sender s)"

fun exec :: "tx \<Rightarrow> NanoPool \<Rightarrow> uint256 option outcome" where
  "exec (Tx sender now c) s = transact (call_body sender now c) s"

fun run :: "tx list \<Rightarrow> NanoPool \<Rightarrow> NanoPool" where
  "run [] s = s"
| "run (t # ts) s = run ts (snd (exec t s))"

definition accepted :: "tx \<Rightarrow> NanoPool \<Rightarrow> bool" where
  "accepted t s = (case fst (exec t s) of Inl _ \<Rightarrow> False | Inr _ \<Rightarrow> True)"

text \<open>Block time never runs backwards: the timestamps of a sequence, from \<open>t\<close> on.\<close>

fun chronological :: "uint256 \<Rightarrow> tx list \<Rightarrow> bool" where
  "chronological t [] = True"
| "chronological t (Tx sender now c # txs) = (t \<le> now \<and> chronological now txs)"

text \<open>No transaction is sent from the zero address.\<close>

fun sender_of :: "tx \<Rightarrow> address" where
  "sender_of (Tx sender now c) = sender"

definition real_senders :: "tx list \<Rightarrow> bool" where
  "real_senders txs = list_all (\<lambda>t. sender_of t \<noteq> 0) txs"

text \<open>
  The value an accepted \<open>contribute\<close> call attaches for pool \<open>poolId\<close>, and the sum
  of those values over a sequence run from the storage \<open>s\<close>.
\<close>

fun attached :: "uint256 \<Rightarrow> tx \<Rightarrow> nat" where
  "attached poolId (Tx sender now (Contribute p amount)) = (if p = poolId then unat amount else 0)"
| "attached poolId (Tx sender now c) = 0"

fun contributed :: "uint256 \<Rightarrow> tx list \<Rightarrow> NanoPool \<Rightarrow> nat" where
  "contributed poolId [] s = 0"
| "contributed poolId (t # ts) s =
     (if accepted t s then attached poolId t else 0) + contributed poolId ts (snd (exec t s))"

text \<open>The ids the successful \<open>createPool\<close> calls of a sequence return, in order.\<close>

fun created_ids :: "tx list \<Rightarrow> NanoPool \<Rightarrow> uint256 list" where
  "created_ids [] s = []"
| "created_ids (t # ts) s =
     (case fst (exec t s) of
        Inr (Some poolId, evs) \<Rightarrow> [poolId]
      | _ \<Rightarrow> []) @ created_ids ts (snd (exec t s))"

text \<open>
  Whether a call is a \<open>contribute\<close> by address \<open>a\<close> to pool \<open>poolId\<close>, and whether
  a sequence run from \<open>s\<close> holds an accepted one.
\<close>

fun contribution_by :: "address \<Rightarrow> uint256 \<Rightarrow> tx \<Rightarrow> bool" where
  "contribution_by a poolId (Tx sender now (Contribute p amount)) = (sender = a \<and> p = poolId)"
| "contribution_by a poolId (Tx sender now c) = False"

fun has_contributed :: "address \<Rightarrow> uint256 \<Rightarrow> tx list \<Rightarrow> NanoPool \<Rightarrow> bool" where
  "has_contributed a poolId [] s = False"
| "has_contributed a poolId (t # ts) s =
     ((accepted t s \<and> contribution_by a poolId t)
      \<or> has_contributed a poolId ts (snd (exec t s)))"

text \<open>
  The contract's balance over a sequence, from the \<open>funds\<close> its address held before:
  an accepted \<open>contribute\<close> brings in its \<open>msg.value\<close>, a successful \<open>disburseFunds\<close>
  sends out \<open>currentAmount\<close> (line 186) and a successful \<open>claimRefund\<close> the caller's
  ledger entry (line 217); a reverted call moves nothing. Balances belong to the
  execution environment, which keeps each of them below \<open>2^256\<close>: a call whose value
  the balance of the callee cannot take is not executed. Value that reaches the contract
  without a call of its functions only adds to the balance.
\<close>

fun moved :: "tx \<Rightarrow> NanoPool \<Rightarrow> int" where
  "moved (Tx sender now (Contribute p amount)) s = int (unat amount)"
| "moved (Tx sender now (DisburseFunds p sent)) s = - int (unat (currentAmount (pools s p)))"
| "moved (Tx sender now (ClaimRefund p sent)) s = - int (unat (contributions (pools s p) sender))"
| "moved (Tx sender now c) s = 0"

fun balance :: "int \<Rightarrow> tx list \<Rightarrow> NanoPool \<Rightarrow> int" where
  "balance b [] s = b"
| "balance b (t # ts) s =
     balance (if accepted t s then b + moved t s else b) ts (snd (exec t s))"

section \<open>A recipient that calls back\<close>

text \<open>
  What the recipient of a transfer does while it has control: the calls made back into
  the contract, each with its \<open>msg.sender\<close> (the recipient itself or a contract it
  calls), and whether it returns success in the end. The calls run in the block of the
  transfer, one after the other, each reverted on its own when it fails. A recipient
  that does not return success has all it did reverted. \<open>emitted\<close> is the log of a
  sequence.
\<close>

type_synonym recipient = "(address \<times> call) list \<times> bool"

definition nested :: "uint256 \<Rightarrow> (address \<times> call) list \<Rightarrow> tx list" where
  "nested now calls = map (\<lambda>(a, c). Tx a now c) calls"

fun emitted :: "tx list \<Rightarrow> NanoPool \<Rightarrow> event list" where
  "emitted [] s = []"
| "emitted (t # ts) s =
     (case fst (exec t s) of
        Inr (r, evs) \<Rightarrow> evs
      | Inl e \<Rightarrow> []) @ emitted ts (snd (exec t s))"

definition callback :: "uint256 \<Rightarrow> recipient \<Rightarrow> transfer" where
  "callback now recipient s =
     (if snd recipient
      then (True, emitted (nested now (fst recipient)) s, run (nested now (fst recipient)) s)
      else (False, [], s))"

text \<open>
  The calls of a sequence that carry no \<open>nonReentrant\<close>: the only ones that a
  recipient can make with effect, the guard being entered throughout the transfer.
\<close>

fun unguarded :: "tx \<Rightarrow> bool" where
  "unguarded (Tx sender now (Contribute p amount)) = False"
| "unguarded (Tx sender now (DisburseFunds p sent)) = False"
| "unguarded (Tx sender now (ClaimRefund p sent)) = False"
| "unguarded (Tx sender now c) = True"

definition disburseFunds_to ::
  "address \<Rightarrow> uint256 \<Rightarrow> recipient \<Rightarrow> uint256 \<Rightarrow> NanoPool \<Rightarrow> unit outcome" where
  "disburseFunds_to sender now recipient poolId =
     nonReentrant (disburseFunds_body sender now (callback now recipient) poolId)"

definition claimRefund_to ::
  "address \<Rightarrow> uint256 \<Rightarrow> recipient \<Rightarrow> uint256 \<Rightarrow> NanoPool \<Rightarrow> unit outcome" where
  "claimRefund_to sender now recipient poolId =
     nonReentrant (claimRefund_body sender now (callback now recipient) poolId)"

section \<open>Example runs\<close>

text \<open>
  The contract is deployed by address 5. Address 7 opens pool 1 at time 100 for
  beneficiary 9, with goal 10 and deadline 200; address 3 contributes 4 at time 110;
  address 4 contributes 6 at time 120, which completes the goal.
\<close>

definition created_trace :: "tx list" where
  "created_trace = [Tx 7 100 (CreatePool 9 ''demo'' 10 200)]"

definition open_trace :: "tx list" where
  "open_trace = [Tx 7 100 (CreatePool 9 ''demo'' 10 200), Tx 3 110 (Contribute 1 4)]"

definition achieved_trace :: "tx list" where
  "achieved_trace =
     [Tx 7 100 (CreatePool 9 ''demo'' 10 200), Tx 3 110 (Contribute 1 4),
      Tx 4 120 (Contribute 1 6)]"

text \<open>Or the deadline passes with only the first contribution made, and address 3 is refunded.\<close>

definition refund_trace :: "tx list" where
  "refund_trace =
     [Tx 7 100 (CreatePool 9 ''demo'' 10 200), Tx 3 110 (Contribute 1 4),
      Tx 3 200 (ClaimRefund 1 True)]"

definition example_created :: NanoPool where
  "example_created = run created_trace (constructor 5)"

definition example_open :: NanoPool where
  "example_open = run open_trace (constructor 5)"

definition example_achieved :: NanoPool where
  "example_achieved = run achieved_trace (constructor 5)"

definition example_refunded :: NanoPool where
  "example_refunded = run refund_trace (constructor 5)"

text \<open>
  Address 3 is a contract that, on receiving its refund, opens a pool of its own and
  tries to contribute to it.
\<close>

definition reentering :: recipient where
  "reentering = ([(3, CreatePool 9 ''inside'' 1 300), (3, Contribute 2 1)], True)"

definition example_reentered :: NanoPool where
  "example_reentered = snd (claimRefund_to 3 200 reentering 1 example_open)"

text \<open>
  Three pools are created by \<open>create_trace\<close>, with two rejected \<open>createPool\<close> calls and
  a contribution in between. In \<open>repeat_trace\<close> address 3 contributes twice, claims
  its refund after the deadline and tries to contribute again. \<open>backwards_trace\<close> is
  not a run of a real chain: its last call carries an earlier timestamp than the refund
  before it.
\<close>

definition create_trace :: "tx list" where
  "create_trace =
     [Tx 7 100 (CreatePool 9 ''first'' 10 200), Tx 7 101 (CreatePool 0 ''rejected'' 10 200),
      Tx 3 110 (Contribute 1 4), Tx 8 120 (CreatePool 9 ''second'' 1 300),
      Tx 8 130 (CreatePool 9 ''late'' 1 130), Tx 8 140 (CreatePool 6 ''third'' 5 141)]"

definition repeat_trace :: "tx list" where
  "repeat_trace =
     [Tx 7 100 (CreatePool 9 ''demo'' 10 200), Tx 3 110 (Contribute 1 4),
      Tx 4 120 (Contribute 1 1), Tx 3 130 (Contribute 1 2),
      Tx 3 200 (ClaimRefund 1 True), Tx 3 210 (Contribute 1 1)]"

definition backwards_trace :: "tx list" where
  "backwards_trace =
     [Tx 7 100 (CreatePool 9 ''demo'' 10 200), Tx 3 110 (Contribute 1 4),
      Tx 3 200 (ClaimRefund 1 True), Tx 3 150 (Contribute 1 1)]"

text \<open>
  A pool whose goal is the largest \<open>uint256\<close>, \<open>2^256 - 1\<close>, and a first contribution
  of \<open>2^256 - 2\<close>, which leaves it one unit below the goal.
\<close>

definition large_trace :: "tx list" where
  "large_trace =
     [Tx 7 100 (CreatePool 9 ''large''
        115792089237316195423570985008687907853269984665640564039457584007913129639935 200),
      Tx 3 110 (Contribute 1
        115792089237316195423570985008687907853269984665640564039457584007913129639934)]"

definition example_large :: NanoPool where
  "example_large = run large_trace (constructor 5)"

section \<open>The storage between transactions\<close>

text \<open>
  What holds of the storage whenever no call is running: the guard is not entered, the
  ids from the counter on hold the untouched pool, a pool that has reached its goal
  exists, and no ledger entry exceeds the pool's aggregate.
\<close>

definition consistent :: "NanoPool \<Rightarrow> bool" where
  "consistent s \<longleftrightarrow>
     \<not> entered s
     \<and> (\<forall>i. poolIdCounter s \<le> i \<longrightarrow> pools s i = empty_pool)
     \<and> (\<forall>p. goalAchieved (pools s p) \<longrightarrow> initiator (pools s p) \<noteq> 0)
     \<and> (\<forall>p a. unat (contributions (pools s p) a) \<le> unat (currentAmount (pools s p)))"

text \<open>
  What a pool holds in escrow: the sum of the ledger entries of its contributors, until
  it is disbursed. \<open>solvent t b s\<close> says that the balance \<open>b\<close> covers the escrow of all
  pools of the storage \<open>s\<close> at block time \<open>t\<close>, together with what that rests on: the
  contributors list names every address with a ledger entry, once, and the ledger entries
  of a pool add up to its \<open>currentAmount\<close> as long as no refund can have been paid.
\<close>

definition ledger_sum :: "Pool \<Rightarrow> nat" where
  "ledger_sum p = sum_list (map (\<lambda>a. unat (contributions p a)) (contributors p))"



section \<open>Create2Factory: the deterministic deployer\<close>

text \<open>
  \<open>bytes\<close> is a list of bytes and \<open>bytes32\<close> a 256-bit word. \<open>to_bytes n w\<close> is the
  big-endian encoding of \<open>w\<close> in \<open>n\<close> bytes, as \<open>abi.encodePacked\<close> lays out an
  address (20 bytes) and a \<open>bytes32\<close> (32 bytes). \<open>keccak256\<close> is a primitive of the
  execution environment: every function of the factory takes it as its first argument,
  and so does \<open>this\<close>, the factory's own address. \<open>address(uint160(uint256(hash)))\<close>
  keeps the low 160 bits of the hash, which is \<open>ucast\<close>.
\<close>

definition to_bytes :: "nat \<Rightarrow> 'a::len word \<Rightarrow> byte list" where
  "to_bytes n w = map (\<lambda>i. ucast (drop_bit (8 * i) w)) (rev [0..<n])"

definition encodePacked :: "byte \<Rightarrow> address \<Rightarrow> bytes32 \<Rightarrow> bytes32 \<Rightarrow> byte list" where
  "encodePacked prefix a salt h = [prefix] @ to_bytes 20 a @ to_bytes 32 salt @ to_bytes 32 h"

definition computeAddress ::
  "(byte list \<Rightarrow> bytes32) \<Rightarrow> address \<Rightarrow> byte list \<Rightarrow> bytes32 \<Rightarrow> address" where
  "computeAddress keccak256 this bytecode salt =
     (let hash = keccak256 (encodePacked 0xff this salt (keccak256 bytecode))
      in ucast hash)"

definition computeAddressFromHash ::
  "(byte list \<Rightarrow> bytes32) \<Rightarrow> address \<Rightarrow> bytes32 \<Rightarrow> bytes32 \<Rightarrow> address" where
  "computeAddressFromHash keccak256 this bytecodeHash salt =
     (let hash = keccak256 (encodePacked 0xff this salt bytecodeHash)
      in ucast hash)"

text \<open>
  Modelled from the spec: the \<open>create2\<close> instruction, which \<open>deploy\<close> reaches through
  inline assembly and which belongs to the execution environment, not to the repository.
  Its address is the deterministic-address formula (a keccak hash over the prefix byte
  \<open>0xff\<close>, the deployer's own address, the salt and the hash of the bytecode, truncated
  to an address-sized value): the last 20 of the hash's 32 bytes. It yields the zero
  address when the deployment fails, which is when the target already holds code
  (\<open>occupied\<close>) or the init code does not run to completion (\<open>init_ok\<close> false).
\<close>

definition create2 ::
  "(byte list \<Rightarrow> bytes32) \<Rightarrow> address \<Rightarrow> (address \<Rightarrow> bool) \<Rightarrow> bool \<Rightarrow> byte list \<Rightarrow> bytes32
     \<Rightarrow> address" where
  "create2 keccak256 this occupied init_ok bytecode salt =
     (let hash = keccak256 ([0xff] @ to_bytes 20 this @ to_bytes 32 salt
                              @ to_bytes 32 (keccak256 bytecode));
          target = word_rcat (drop 12 (to_bytes 32 hash))
      in if occupied target \<or> \<not> init_ok then 0 else target)"

definition deploy ::
  "(byte list \<Rightarrow> bytes32) \<Rightarrow> address \<Rightarrow> (address \<Rightarrow> bool) \<Rightarrow> bool \<Rightarrow> byte list \<Rightarrow> bytes32
     \<Rightarrow> (error + address \<times> event list) \<times> (address \<Rightarrow> bool)" where
  "deploy keccak256 this occupied init_ok bytecode salt =
     (let deployedAddress = create2 keccak256 this occupied init_ok bytecode salt
      in if deployedAddress = 0 then (Inl DeploymentFailed, occupied)
         else (Inr (deployedAddress, [ContractDeployed deployedAddress salt]),
               occupied(deployedAddress := True)))"

text \<open>
  A stand-in for the hash in the example below: the bytes read as a big-endian number,
  modulo \<open>2^256\<close>.
\<close>

definition toy_hash :: "byte list \<Rightarrow> bytes32" where
  "toy_hash bs = word_rcat bs"

section \<open>What an accepted contribution stores\<close>

text \<open>
  The pool record that \<open>contribute\<close> leaves behind when it accepts a contribution, written
  as one update of the pool it found (lemma \<open>contribute_Inr\<close> proves that it is).
\<close>

definition contributed_pool :: "address \<Rightarrow> uint256 \<Rightarrow> Pool \<Rightarrow> Pool" where
  "contributed_pool sender amount p =
     p\<lparr>contributors := (if contributions p sender = 0 then contributors p @ [sender]
                         else contributors p),
       contributions := (contributions p)(sender := contributions p sender + amount),
       currentAmount := currentAmount p + amount,
       goalAchieved := (goalAmount p \<le> currentAmount p + amount)\<rparr>"

section \<open>Properties\<close>

lemmas call_defs =
  createPool_def contribute_def contribute_body_def disburseFunds_def disburseFunds_body_def
  claimRefund_def claimRefund_body_def plain_transfer_def transferOwnership_def
  renounceOwnership_def nonReentrant_def transact_def returning_def store_pool_def checked_add_def Let_def

subsection \<open>The example runs, evaluated\<close>

lemma example_created_eq:
  "example_created =
     \<lparr>owner = 5, entered = False, poolIdCounter = 2,
      pools = (\<lambda>_. empty_pool)(1 :=
        \<lparr>initiator = 7, beneficiary = 9, description = ''demo'', goalAmount = 10,
         currentAmount = 0, deadlineTimestamp = 200, goalAchieved = False,
         fundsDisbursed = False, contributions = (\<lambda>_. 0), contributors = []\<rparr>)\<rparr>"
  by (simp add: example_created_def created_trace_def constructor_def empty_pool_def call_defs)

lemma example_open_eq:
  "example_open =
     \<lparr>owner = 5, entered = False, poolIdCounter = 2,
      pools = (\<lambda>_. empty_pool)(1 :=
        \<lparr>initiator = 7, beneficiary = 9, description = ''demo'', goalAmount = 10,
         currentAmount = 4, deadlineTimestamp = 200, goalAchieved = False,
         fundsDisbursed = False, contributions = (\<lambda>_. 0)(3 := 4), contributors = [3]\<rparr>)\<rparr>"
  by (simp add: example_open_def open_trace_def constructor_def empty_pool_def call_defs)

lemma example_achieved_eq:
  "example_achieved =
     \<lparr>owner = 5, entered = False, poolIdCounter = 2,
      pools = (\<lambda>_. empty_pool)(1 :=
        \<lparr>initiator = 7, beneficiary = 9, description = ''demo'', goalAmount = 10,
         currentAmount = 10, deadlineTimestamp = 200, goalAchieved = True,
         fundsDisbursed = False, contributions = (\<lambda>_. 0)(3 := 4, 4 := 6),
         contributors = [3, 4]\<rparr>)\<rparr>"
  by (simp add: example_achieved_def achieved_trace_def constructor_def empty_pool_def call_defs)

lemma example_refunded_eq:
  "example_refunded =
     \<lparr>owner = 5, entered = False, poolIdCounter = 2,
      pools = (\<lambda>_. empty_pool)(1 :=
        \<lparr>initiator = 7, beneficiary = 9, description = ''demo'', goalAmount = 10,
         currentAmount = 4, deadlineTimestamp = 200, goalAchieved = False,
         fundsDisbursed = False, contributions = (\<lambda>_. 0)(3 := 0), contributors = [3]\<rparr>)\<rparr>"
  by (simp add: example_refunded_def refund_trace_def constructor_def empty_pool_def call_defs)

lemma example_large_eq:
  "example_large =
     \<lparr>owner = 5, entered = False, poolIdCounter = 2,
      pools = (\<lambda>_. empty_pool)(1 :=
        \<lparr>initiator = 7, beneficiary = 9, description = ''large'', goalAmount = 115792089237316195423570985008687907853269984665640564039457584007913129639935,
         currentAmount = 115792089237316195423570985008687907853269984665640564039457584007913129639934, deadlineTimestamp = 200, goalAchieved = False,
         fundsDisbursed = False, contributions = (\<lambda>_. 0)(3 := 115792089237316195423570985008687907853269984665640564039457584007913129639934), contributors = [3]\<rparr>)\<rparr>"
  by (simp add: example_large_def large_trace_def constructor_def empty_pool_def call_defs)

lemma example_claimRefund:
  "claimRefund 3 200 True 1 example_open = (Inr ((), [RefundClaimed 1 3 4]), example_refunded)"
  by (simp add: example_refunded_eq example_open_eq call_defs)

lemma refund_trace_contributed: "contributed 1 refund_trace (constructor 5) = 4"
  by (simp add: refund_trace_def accepted_def constructor_def empty_pool_def call_defs)

subsection \<open>The outcomes of a call\<close>


lemma unat_checked_sum:
  "unat a + unat b < 2 ^ 256 \<Longrightarrow> unat (a + b :: uint256) = unat a + unat b"
  using unat_add_lem [of a b] by simp

lemma entered_False_id: "\<not> entered s \<Longrightarrow> s\<lparr>entered := False\<rparr> = s"
  by (cases s) simp

lemma createPool_Inr:
  assumes "createPool sender now ben desc goal deadline s = (Inr r, s')"
  shows "ben \<noteq> 0 \<and> goal \<noteq> 0 \<and> now < deadline \<and> unat (poolIdCounter s) + 1 < 2 ^ 256
     \<and> r = (poolIdCounter s, [PoolCreated (poolIdCounter s) sender ben desc goal deadline])
     \<and> s' = s\<lparr>poolIdCounter := poolIdCounter s + 1,
             pools := (pools s)(poolIdCounter s := (pools s (poolIdCounter s))
               \<lparr>initiator := sender, beneficiary := ben, description := desc,
                goalAmount := goal, currentAmount := 0, deadlineTimestamp := deadline,
                goalAchieved := False, fundsDisbursed := False, contributors := []\<rparr>)\<rparr>"
  using assms
  by (auto simp: createPool_def checked_add_def store_pool_def Let_def word_greater_zero_iff
      split: if_splits)

lemma contribute_Inr:
  assumes "contribute sender now amount poolId s = (Inr r, s')"
  shows "\<not> entered s \<and> initiator (pools s poolId) \<noteq> 0
     \<and> now < deadlineTimestamp (pools s poolId) \<and> \<not> goalAchieved (pools s poolId)
     \<and> amount \<noteq> 0
     \<and> unat (contributions (pools s poolId) sender) + unat amount < 2 ^ 256
     \<and> unat (currentAmount (pools s poolId)) + unat amount < 2 ^ 256
     \<and> s' = store_pool poolId (contributed_pool sender amount (pools s poolId)) s"
  using assms
  by (cases s) (auto simp: contribute_def nonReentrant_def contribute_body_def store_pool_def
      checked_add_def contributed_pool_def Let_def word_greater_zero_iff
      split: if_splits)

lemma disburseFunds_Inr:
  assumes "disburseFunds sender now sent poolId s = (Inr r, s')"
  shows "\<not> entered s \<and> sent \<and> initiator (pools s poolId) \<noteq> 0
     \<and> (sender = initiator (pools s poolId) \<or> sender = owner s)
     \<and> goalAchieved (pools s poolId) \<and> \<not> fundsDisbursed (pools s poolId)
     \<and> deadlineTimestamp (pools s poolId) \<le> now
     \<and> s' = store_pool poolId ((pools s poolId)\<lparr>fundsDisbursed := True\<rparr>) s"
  using assms
  by (cases s) (auto simp: disburseFunds_def nonReentrant_def disburseFunds_body_def plain_transfer_def
      store_pool_def Let_def split: if_splits)

lemma claimRefund_Inr:
  assumes "claimRefund sender now sent poolId s = (Inr r, s')"
  shows "\<not> entered s \<and> sent \<and> initiator (pools s poolId) \<noteq> 0
     \<and> deadlineTimestamp (pools s poolId) \<le> now \<and> \<not> goalAchieved (pools s poolId)
     \<and> contributions (pools s poolId) sender \<noteq> 0
     \<and> s' = store_pool poolId
          ((pools s poolId)\<lparr>contributions := (contributions (pools s poolId))(sender := 0)\<rparr>) s"
  using assms
  by (cases s) (auto simp: claimRefund_def nonReentrant_def claimRefund_body_def plain_transfer_def store_pool_def
      Let_def word_greater_zero_iff split: if_splits)

lemma transact_Inl: "transact body s = (Inl e, s') \<Longrightarrow> s' = s"
  by (auto simp: transact_def split: prod.splits sum.splits)

lemma transact_Inr: "transact body s = (Inr r, s') \<Longrightarrow> body s = (Inr r, s')"
  by (auto simp: transact_def split: prod.splits sum.splits)

lemma returning_Inr:
  "returning f out = (Inr r, s') \<Longrightarrow> \<exists>x evs. out = (Inr (x, evs), s') \<and> r = (f x, evs)"
  by (auto simp: returning_def split: prod.splits sum.splits)

lemma exec_Inl: "exec t s = (Inl e, s') \<Longrightarrow> s' = s"
  by (cases t) (auto dest: transact_Inl)

text \<open>Every outcome of a transaction: it is reverted, or it is one of the four successes.\<close>

lemma exec_outcomes:
  obtains
    (Reverted) e where "exec t s = (Inl e, s)"
  | (Created) sender now ben desc goal deadline evs where
      "t = Tx sender now (CreatePool ben desc goal deadline)"
      "unat (poolIdCounter s) + 1 < 2 ^ 256"
      "exec t s = (Inr (Some (poolIdCounter s), evs),
         s\<lparr>poolIdCounter := poolIdCounter s + 1,
           pools := (pools s)(poolIdCounter s := (pools s (poolIdCounter s))
             \<lparr>initiator := sender, beneficiary := ben, description := desc,
              goalAmount := goal, currentAmount := 0, deadlineTimestamp := deadline,
              goalAchieved := False, fundsDisbursed := False, contributors := []\<rparr>)\<rparr>)"
  | (Contributed) sender now poolId amount evs where
      "t = Tx sender now (Contribute poolId amount)"
      "initiator (pools s poolId) \<noteq> 0"
      "now < deadlineTimestamp (pools s poolId)"
      "amount \<noteq> 0"
      "unat (contributions (pools s poolId) sender) + unat amount < 2 ^ 256"
      "unat (currentAmount (pools s poolId)) + unat amount < 2 ^ 256"
      "exec t s = (Inr (None, evs),
         store_pool poolId (contributed_pool sender amount (pools s poolId)) s)"
      "\<not> entered s"
      "\<not> goalAchieved (pools s poolId)"
  | (Disbursed) sender now poolId sent evs where
      "t = Tx sender now (DisburseFunds poolId sent)"
      "exec t s = (Inr (None, evs),
         store_pool poolId ((pools s poolId)\<lparr>fundsDisbursed := True\<rparr>) s)"
      "\<not> entered s"
      "initiator (pools s poolId) \<noteq> 0"
      "goalAchieved (pools s poolId)"
      "\<not> fundsDisbursed (pools s poolId)"
      "deadlineTimestamp (pools s poolId) \<le> now"
  | (Refunded) sender now poolId sent evs where
      "t = Tx sender now (ClaimRefund poolId sent)"
      "deadlineTimestamp (pools s poolId) \<le> now"
      "exec t s = (Inr (None, evs),
         store_pool poolId
           ((pools s poolId)\<lparr>contributions := (contributions (pools s poolId))(sender := 0)\<rparr>) s)"
      "\<not> entered s"
      "initiator (pools s poolId) \<noteq> 0"
      "\<not> goalAchieved (pools s poolId)"
      "contributions (pools s poolId) sender \<noteq> 0"
  | (OwnerChanged) sender now c newOwner evs where
      "t = Tx sender now c"
      "c = TransferOwnership newOwner \<or> c = RenounceOwnership"
      "exec t s = (Inr (None, evs), s\<lparr>owner := newOwner\<rparr>)"
proof (cases "exec t s")
  case (Pair res s')
  show thesis
  proof (cases res)
    case (Inl e)
    with Pair exec_Inl [of t s e s'] show thesis by (auto intro: Reverted)
  next
    case (Inr r)
    obtain sender now c where t: "t = Tx sender now c" by (cases t)
    from Pair Inr t have body: "call_body sender now c s = (Inr r, s')"
      by (auto dest: transact_Inr)
    show thesis
    proof (cases c)
      case (CreatePool ben desc goal deadline)
      with body obtain x evs where
        "createPool sender now ben desc goal deadline s = (Inr (x, evs), s')" "r = (Some x, evs)"
        by (auto dest: returning_Inr)
      with createPool_Inr [of sender now ben desc goal deadline s "(x, evs)" s']
        Pair Inr t CreatePool
      show thesis by (intro Created [of sender now ben desc goal deadline evs]) auto
    next
      case (Contribute poolId amount)
      with body obtain x evs where
        "contribute sender now amount poolId s = (Inr (x, evs), s')" "r = (None, evs)"
        by (auto dest: returning_Inr)
      with contribute_Inr [of sender now amount poolId s "(x, evs)" s'] Pair Inr t Contribute
      show thesis by (intro Contributed [of sender now poolId amount evs]) auto
    next
      case (DisburseFunds poolId sent)
      with body obtain x evs where
        "disburseFunds sender now sent poolId s = (Inr (x, evs), s')" "r = (None, evs)"
        by (auto dest: returning_Inr)
      with disburseFunds_Inr [of sender now sent poolId s "(x, evs)" s'] Pair Inr t DisburseFunds
      show thesis by (intro Disbursed [of sender now poolId sent evs]) auto
    next
      case (ClaimRefund poolId sent)
      with body obtain x evs where
        "claimRefund sender now sent poolId s = (Inr (x, evs), s')" "r = (None, evs)"
        by (auto dest: returning_Inr)
      with claimRefund_Inr [of sender now sent poolId s "(x, evs)" s'] Pair Inr t ClaimRefund
      show thesis by (intro Refunded [of sender now poolId sent evs]) auto
    next
      case (TransferOwnership newOwner)
      with body Pair Inr t show thesis
        by (intro OwnerChanged [of sender now c newOwner])
          (auto simp: transferOwnership_def dest!: returning_Inr split: if_splits)
    next
      case RenounceOwnership
      with body Pair Inr t show thesis
        by (intro OwnerChanged [of sender now c 0])
          (auto simp: renounceOwnership_def dest!: returning_Inr split: if_splits)
    qed
  qed
qed

lemma exec_Inr_initiator:
  assumes "exec (Tx sender now c) s = (Inr r, s')"
    and "c = Contribute poolId x \<or> c = DisburseFunds poolId y \<or> c = ClaimRefund poolId y"
  shows "initiator (pools s poolId) \<noteq> 0"
  using assms
  by (auto dest!: transact_Inr returning_Inr dest: contribute_Inr disburseFunds_Inr claimRefund_Inr)

lemma word_succ_le:
  "unat (c :: uint256) + 1 < 2 ^ 256 \<Longrightarrow> c + 1 \<le> i \<longleftrightarrow> c < i"
  using unat_checked_sum [of c 1] by (auto simp: word_le_nat_alt word_less_nat_alt)

lemma unused_ids_step:
  assumes "\<forall>i. poolIdCounter s \<le> i \<longrightarrow> pools s i = empty_pool"
  shows "\<forall>i. poolIdCounter (snd (exec t s)) \<le> i \<longrightarrow> pools (snd (exec t s)) i = empty_pool"
proof (cases t s rule: exec_outcomes)
  case (Reverted e)
  with assms show ?thesis by simp
next
  case (Created sender now ben desc goal deadline evs)
  with assms show ?thesis by (auto simp: word_succ_le)
next
  case (Contributed sender now poolId amount evs)
  with assms have "\<not> poolIdCounter s \<le> poolId" by (auto simp: empty_pool_def)
  with assms Contributed show ?thesis by (auto simp: store_pool_def)
next
  case (Disbursed sender now poolId sent evs)
  with exec_Inr_initiator [of sender now "DisburseFunds poolId sent" s _ _ poolId]
  have "initiator (pools s poolId) \<noteq> 0" by auto
  with assms have "\<not> poolIdCounter s \<le> poolId" by (auto simp: empty_pool_def)
  with assms Disbursed show ?thesis by (auto simp: store_pool_def)
next
  case (Refunded sender now poolId sent evs)
  with exec_Inr_initiator [of sender now "ClaimRefund poolId sent" s _ _ poolId]
  have "initiator (pools s poolId) \<noteq> 0" by auto
  with assms have "\<not> poolIdCounter s \<le> poolId" by (auto simp: empty_pool_def)
  with assms Refunded show ?thesis by (auto simp: store_pool_def)
next
  case (OwnerChanged sender now c newOwner evs)
  with assms show ?thesis by simp
qed

lemma currentAmount_step:
  assumes "\<forall>i. poolIdCounter s \<le> i \<longrightarrow> pools s i = empty_pool"
  shows "unat (currentAmount (pools (snd (exec t s)) poolId))
       = unat (currentAmount (pools s poolId)) + (if accepted t s then attached poolId t else 0)"
proof (cases t s rule: exec_outcomes)
  case (Reverted e)
  then show ?thesis by (simp add: accepted_def)
next
  case (Created sender now ben desc goal deadline evs)
  with assms show ?thesis by (auto simp: accepted_def empty_pool_def)
next
  case (Contributed sender now p amount evs)
  then show ?thesis
    by (auto simp: accepted_def store_pool_def contributed_pool_def unat_checked_sum)
next
  case (Disbursed sender now p sent evs)
  then show ?thesis by (auto simp: accepted_def store_pool_def)
next
  case (Refunded sender now p sent evs)
  then show ?thesis by (auto simp: accepted_def store_pool_def)
next
  case (OwnerChanged sender now c newOwner evs)
  then show ?thesis by (auto simp: accepted_def)
qed

lemma currentAmount_run:
  assumes "\<forall>i. poolIdCounter s \<le> i \<longrightarrow> pools s i = empty_pool"
  shows "unat (currentAmount (pools (run txs s) poolId))
       = unat (currentAmount (pools s poolId)) + contributed poolId txs s"
  using assms
proof (induction txs arbitrary: s)
  case Nil
  show ?case by simp
next
  case (Cons t txs)
  from Cons.IH [OF unused_ids_step [OF Cons.prems, of t]] currentAmount_step [OF Cons.prems, of t poolId]
  show ?case by simp
qed

lemma constructor_unused: "\<forall>i. poolIdCounter (constructor d) \<le> i \<longrightarrow> pools (constructor d) i = empty_pool"
  by (simp add: constructor_def)

subsection \<open>The storage between transactions\<close>

lemma consistent_constructor: "consistent (constructor d)"
  by (simp add: consistent_def constructor_def empty_pool_def)

lemma consistent_step:
  assumes "consistent s"
  shows "consistent (snd (exec t s))"
proof -
  from assms have fresh: "\<forall>i. poolIdCounter s \<le> i \<longrightarrow> pools s i = empty_pool"
    by (simp add: consistent_def)
  note fresh' = unused_ids_step [OF fresh, of t]
  show ?thesis
  proof (cases t s rule: exec_outcomes)
    case (Reverted e)
    with assms show ?thesis by simp
  next
    case (Created sender now ben desc goal deadline evs)
    with assms fresh' show ?thesis by (auto simp: consistent_def empty_pool_def)
  next
    case (Contributed sender now poolId amount evs)
    with assms fresh' show ?thesis
      by (auto simp: consistent_def store_pool_def contributed_pool_def unat_checked_sum
          trans_le_add1)
  next
    case (Disbursed sender now poolId sent evs)
    with assms fresh' show ?thesis by (auto simp: consistent_def store_pool_def)
  next
    case (Refunded sender now poolId sent evs)
    with assms fresh' show ?thesis by (auto simp: consistent_def store_pool_def)
  next
    case (OwnerChanged sender now c newOwner evs)
    with assms show ?thesis by (simp add: consistent_def)
  qed
qed

lemma consistent_run: "consistent s \<Longrightarrow> consistent (run txs s)"
  by (induction txs arbitrary: s) (simp_all add: consistent_step)

lemma consistent_reached: "consistent (run txs (constructor d))"
  by (rule consistent_run [OF consistent_constructor])

subsection \<open>Pool ids\<close>

lemma created_ids_step:
  "created_ids (t # txs) s =
     (if (\<exists>evs. fst (exec t s) = Inr (Some (poolIdCounter s), evs))
      then poolIdCounter s # created_ids txs (snd (exec t s))
      else created_ids txs (snd (exec t s)))
   \<and> unat (poolIdCounter (snd (exec t s)))
       = (if (\<exists>evs. fst (exec t s) = Inr (Some (poolIdCounter s), evs))
          then unat (poolIdCounter s) + 1 else unat (poolIdCounter s))"
proof (cases t s rule: exec_outcomes)
  case (Reverted e)
  then show ?thesis by simp
next
  case (Created sender now ben desc goal deadline evs)
  then show ?thesis by (simp add: unat_checked_sum)
next
  case (Contributed sender now poolId amount evs)
  then show ?thesis by (simp add: store_pool_def)
next
  case (Disbursed sender now poolId sent evs)
  then show ?thesis by (simp add: store_pool_def)
next
  case (Refunded sender now poolId sent evs)
  then show ?thesis by (simp add: store_pool_def)
next
  case (OwnerChanged sender now c newOwner evs)
  then show ?thesis by simp
qed

lemma created_ids_from:
  "map unat (created_ids txs s)
     = [unat (poolIdCounter s) ..< unat (poolIdCounter s) + length (created_ids txs s)]"
proof (induction txs arbitrary: s)
  case Nil
  show ?case by simp
next
  case (Cons t txs)
  show ?case
    using Cons.IH [of "snd (exec t s)"] created_ids_step [of t txs s]
    by (auto simp: upt_conv_Cons simp del: created_ids.simps upt_Suc)
qed

lemma createPool_Inl: "createPool sender now ben desc goal deadline s = (Inl e, s') \<Longrightarrow> s' = s"
  by (auto simp: createPool_def Let_def split: if_splits option.splits)

lemma create_trace_ids: "created_ids create_trace (constructor 5) = [1, 2, 3]"
  by (simp add: create_trace_def constructor_def empty_pool_def call_defs)

subsection \<open>The contributors list\<close>

lemma checked_sum_nonzero:
  assumes "amount \<noteq> 0" and "unat (x :: uint256) + unat amount < 2 ^ 256"
  shows "x + amount \<noteq> 0"
proof
  assume "x + amount = 0"
  then have "unat (x + amount) = 0" by simp
  with unat_checked_sum [OF assms(2)] have "unat amount = 0" by simp
  with assms(1) show False by (simp add: unat_eq_0)
qed

lemma contributors_step:
  assumes inv: "\<forall>p. distinct (contributors (pools s p))
            \<and> (\<forall>a \<in> set (contributors (pools s p)).
                  contributions (pools s p) a \<noteq> 0 \<or> deadlineTimestamp (pools s p) \<le> t)"
    and time: "t \<le> now"
  shows "\<forall>p. distinct (contributors (pools (snd (exec (Tx sender now c) s)) p))
            \<and> (\<forall>a \<in> set (contributors (pools (snd (exec (Tx sender now c) s)) p)).
                  contributions (pools (snd (exec (Tx sender now c) s)) p) a \<noteq> 0
                  \<or> deadlineTimestamp (pools (snd (exec (Tx sender now c) s)) p) \<le> now)"
proof (cases "Tx sender now c" s rule: exec_outcomes)
  case (Reverted e)
  with inv time show ?thesis by (auto intro: order_trans)
next
  case (Created sender' now' ben desc goal deadline evs)
  with inv time show ?thesis by (auto intro: order_trans)
next
  case (Contributed sender' now' poolId amount evs)
  then have eq: "sender' = sender" "now' = now" by simp_all
  from Contributed(3) time eq have before: "\<not> deadlineTimestamp (pools s poolId) \<le> t" by auto
  with inv have live: "\<forall>a \<in> set (contributors (pools s poolId)). contributions (pools s poolId) a \<noteq> 0"
    by blast
  from Contributed(4,5) have "contributions (pools s poolId) sender' + amount \<noteq> 0"
    by (rule checked_sum_nonzero)
  with inv time live Contributed(7) eq show ?thesis
    by (auto simp: store_pool_def contributed_pool_def intro: order_trans)
next
  case (Disbursed sender' now' poolId sent evs)
  with inv time show ?thesis by (auto simp: store_pool_def intro: order_trans)
next
  case (Refunded sender' now' poolId sent evs)
  with inv time show ?thesis by (auto simp: store_pool_def intro: order_trans)
next
  case (OwnerChanged sender' now' c' newOwner evs)
  with inv time show ?thesis by (auto intro: order_trans)
qed

lemma contributors_run:
  assumes "\<forall>p. distinct (contributors (pools s p))
            \<and> (\<forall>a \<in> set (contributors (pools s p)).
                  contributions (pools s p) a \<noteq> 0 \<or> deadlineTimestamp (pools s p) \<le> t)"
    and "chronological t txs"
  shows "distinct (contributors (pools (run txs s) p))"
  using assms
proof (induction txs arbitrary: s t)
  case Nil
  then show ?case by simp
next
  case (Cons x txs)
  obtain sender now c where x: "x = Tx sender now c" by (cases x)
  with Cons.prems(2) have time: "t \<le> now" and rest: "chronological now txs" by simp_all
  from Cons.IH [OF contributors_step [OF Cons.prems(1) time, of sender c] rest] x
  show ?case by simp
qed

lemma repeat_trace_contributors:
  "contributors (pools (run repeat_trace (constructor 5)) 1) = [3, 4]
   \<and> contributions (pools (run repeat_trace (constructor 5)) 1) 3 = 0"
  by (simp add: repeat_trace_def constructor_def empty_pool_def call_defs)

text \<open>
  The order of block times matters: were a contribution to run at a time before a refund
  already made, the refunded address would be appended a second time.
\<close>

lemma backwards_trace_contributors:
  "\<not> chronological 0 backwards_trace
   \<and> contributors (pools (run backwards_trace (constructor 5)) 1) = [3, 3]"
  by (simp add: backwards_trace_def constructor_def empty_pool_def call_defs)

subsection \<open>Ledger entries and existing pools\<close>

lemma ledger_step:
  assumes "contributions (pools s p) a = 0"
    and "\<not> (accepted t s \<and> contribution_by a p t)"
  shows "contributions (pools (snd (exec t s)) p) a = 0"
proof (cases t s rule: exec_outcomes)
  case (Reverted e)
  with assms show ?thesis by simp
next
  case (Created sender now ben desc goal deadline evs)
  with assms show ?thesis by auto
next
  case (Contributed sender now poolId amount evs)
  with assms show ?thesis
    by (auto simp: accepted_def store_pool_def contributed_pool_def)
next
  case (Disbursed sender now poolId sent evs)
  with assms show ?thesis by (auto simp: store_pool_def)
next
  case (Refunded sender now poolId sent evs)
  with assms show ?thesis by (auto simp: store_pool_def)
next
  case (OwnerChanged sender now c newOwner evs)
  with assms show ?thesis by simp
qed

lemma ledger_run:
  assumes "contributions (pools s p) a = 0" and "\<not> has_contributed a p txs s"
  shows "contributions (pools (run txs s) p) a = 0"
  using assms
proof (induction txs arbitrary: s)
  case Nil
  then show ?case by simp
next
  case (Cons t txs)
  from Cons.prems have now: "\<not> (accepted t s \<and> contribution_by a p t)"
    and later: "\<not> has_contributed a p txs (snd (exec t s))" by simp_all
  from Cons.IH [OF ledger_step [OF Cons.prems(1) now] later] show ?case by simp
qed

lemma initiator_step:
  assumes fresh: "\<forall>i. poolIdCounter s \<le> i \<longrightarrow> pools s i = empty_pool"
    and real: "sender_of t \<noteq> 0"
  shows "initiator (pools (snd (exec t s)) p) \<noteq> 0
     \<longleftrightarrow> initiator (pools s p) \<noteq> 0
         \<or> ((\<exists>evs. fst (exec t s) = Inr (Some (poolIdCounter s), evs)) \<and> p = poolIdCounter s)"
proof (cases t s rule: exec_outcomes)
  case (Reverted e)
  then show ?thesis by simp
next
  case (Created sender now ben desc goal deadline evs)
  with fresh real show ?thesis by (auto simp: empty_pool_def)
next
  case (Contributed sender now poolId amount evs)
  then show ?thesis by (auto simp: store_pool_def contributed_pool_def)
next
  case (Disbursed sender now poolId sent evs)
  then show ?thesis by (auto simp: store_pool_def)
next
  case (Refunded sender now poolId sent evs)
  then show ?thesis by (auto simp: store_pool_def)
next
  case (OwnerChanged sender now c newOwner evs)
  then show ?thesis by simp
qed

lemma initiator_run:
  assumes "\<forall>i. poolIdCounter s \<le> i \<longrightarrow> pools s i = empty_pool"
    and "real_senders txs"
  shows "initiator (pools (run txs s) p) \<noteq> 0
     \<longleftrightarrow> initiator (pools s p) \<noteq> 0 \<or> p \<in> set (created_ids txs s)"
  using assms
proof (induction txs arbitrary: s)
  case Nil
  show ?case by simp
next
  case (Cons t txs)
  from Cons.prems(2) have real: "sender_of t \<noteq> 0" and rest: "real_senders txs"
    by (simp_all add: real_senders_def)
  from Cons.IH [OF unused_ids_step [OF Cons.prems(1), of t] rest]
    initiator_step [OF Cons.prems(1) real, of p] created_ids_step [of t txs s]
  show ?case by (auto simp del: created_ids.simps)
qed

subsection \<open>Bytes of a hash\<close>

lemma drop_to_bytes: "k \<le> n \<Longrightarrow> drop k (to_bytes n w) = to_bytes (n - k) w"
  by (simp add: to_bytes_def drop_map drop_rev)

lemma rev_to_bytes_nth:
  "i < n \<Longrightarrow> rev (to_bytes n w) ! i = ucast (drop_bit (8 * i) w)"
  by (simp add: to_bytes_def rev_map)

lemma length_to_bytes [simp]: "length (to_bytes n w) = n"
  by (simp add: to_bytes_def)

lemma bit_word_rcat_bytes:
  "bit (word_rcat (bs :: byte list) :: 'a::len word) n
     \<longleftrightarrow> n < LENGTH('a) \<and> n div 8 < length bs \<and> bit (rev bs ! (n div 8)) (n mod 8)"
  using bit_horner_sum_uint_exp_iff [where 'a = 8, of "rev bs" n]
  by (simp add: word_rcat_def bit_word_of_int_iff)

lemma last_bytes_of_hash: "(word_rcat (to_bytes 20 (h :: bytes32)) :: address) = ucast h"
proof (rule bit_word_eqI)
  fix n assume n: "n < LENGTH(160)"
  then have d: "n div 8 < 20" by simp
  have split: "8 * (n div 8) + n mod 8 = n" by simp
  from n d have "bit (word_rcat (to_bytes 20 h) :: address) n
      \<longleftrightarrow> bit (ucast (drop_bit (8 * (n div 8)) h) :: byte) (n mod 8)"
    by (simp only: bit_word_rcat_bytes rev_to_bytes_nth length_to_bytes simp_thms)
  also have "\<dots> \<longleftrightarrow> bit h n"
    by (simp add: bit_ucast_iff bit_drop_bit_eq split)
  also from n have "\<dots> \<longleftrightarrow> bit (ucast h :: address) n"
    by (simp add: bit_ucast_iff)
  finally show "bit (word_rcat (to_bytes 20 h) :: address) n \<longleftrightarrow> bit (ucast h :: address) n" .
qed

lemma create2_target:
  "(word_rcat (drop 12 (to_bytes 32 (h :: bytes32))) :: address) = ucast h"
  by (simp add: drop_to_bytes last_bytes_of_hash)

subsection \<open>A recipient that calls back\<close>

lemma callback_plain: "callback now ([], sent) = plain_transfer sent"
  by (rule ext) (simp add: callback_def plain_transfer_def nested_def)

lemma claimRefund_to_plain: "claimRefund_to sender now ([], sent) poolId = claimRefund sender now sent poolId"
  by (simp add: claimRefund_to_def claimRefund_def callback_plain)

lemma disburseFunds_to_plain: "disburseFunds_to sender now ([], sent) poolId = disburseFunds sender now sent poolId"
  by (simp add: disburseFunds_to_def disburseFunds_def callback_plain)

lemma entered_step:
  assumes "entered s"
  shows "entered (snd (exec t s))
     \<and> poolIdCounter s \<le> poolIdCounter (snd (exec t s))
     \<and> (\<forall>p. p < poolIdCounter s \<longrightarrow> pools (snd (exec t s)) p = pools s p)
     \<and> (\<forall>p a. contributions (pools (snd (exec t s)) p) a = contributions (pools s p) a)"
proof (cases t s rule: exec_outcomes)
  case (Reverted e)
  with assms show ?thesis by simp
next
  case (Created sender now ben desc goal deadline evs)
  from Created(2) have "poolIdCounter s \<le> poolIdCounter s + 1"
    using unat_checked_sum [of "poolIdCounter s" 1] by (simp add: word_le_nat_alt)
  with assms Created show ?thesis by auto
next
  case (Contributed sender now poolId amount evs)
  with assms show ?thesis by simp
next
  case (Disbursed sender now poolId sent evs)
  with assms show ?thesis by simp
next
  case (Refunded sender now poolId sent evs)
  with assms show ?thesis by simp
next
  case (OwnerChanged sender now c newOwner evs)
  with assms show ?thesis by simp
qed

lemma entered_run:
  assumes "entered s"
  shows "entered (run txs s)
     \<and> poolIdCounter s \<le> poolIdCounter (run txs s)
     \<and> (\<forall>p. p < poolIdCounter s \<longrightarrow> pools (run txs s) p = pools s p)
     \<and> (\<forall>p a. contributions (pools (run txs s) p) a = contributions (pools s p) a)"
  using assms
proof (induction txs arbitrary: s)
  case Nil
  then show ?case by simp
next
  case (Cons t txs)
  from entered_step [OF Cons.prems, of t] Cons.IH [of "snd (exec t s)"]
  show ?case by (auto simp: less_le_trans intro: order_trans)
qed

lemma claimRefund_to_Inr:
  assumes "claimRefund_to sender now recipient poolId s = (Inr r, s')"
  shows "\<not> entered s \<and> snd recipient \<and> initiator (pools s poolId) \<noteq> 0
     \<and> deadlineTimestamp (pools s poolId) \<le> now \<and> \<not> goalAchieved (pools s poolId)
     \<and> contributions (pools s poolId) sender \<noteq> 0
     \<and> s' = (run (nested now (fst recipient))
               (s\<lparr>entered := True,
                   pools := (pools s)(poolId := (pools s poolId)
                     \<lparr>contributions := (contributions (pools s poolId))(sender := 0)\<rparr>)\<rparr>))
             \<lparr>entered := False\<rparr>"
  using assms
  by (auto simp: claimRefund_to_def nonReentrant_def claimRefund_body_def callback_def
      store_pool_def Let_def word_greater_zero_iff split: if_splits prod.splits)

lemma existing_below_counter:
  assumes "s = run txs (constructor d)" and "initiator (pools s p) \<noteq> 0"
  shows "p < poolIdCounter s"
proof (rule ccontr)
  assume "\<not> p < poolIdCounter s"
  moreover from assms(1) have "consistent s" by (simp add: consistent_reached)
  ultimately have "pools s p = empty_pool" by (simp add: consistent_def not_less)
  with assms(2) show False by (simp add: empty_pool_def)
qed

lemmas callback_defs = claimRefund_to_def disburseFunds_to_def callback_def nested_def

lemma example_reentered_eq:
  "claimRefund_to 3 200 reentering 1 example_open =
     (Inr ((), [PoolCreated 2 3 9 ''inside'' 1 300, RefundClaimed 1 3 4]),
      \<lparr>owner = 5, entered = False, poolIdCounter = 3,
       pools = (\<lambda>_. empty_pool)
         (1 := \<lparr>initiator = 7, beneficiary = 9, description = ''demo'', goalAmount = 10,
                currentAmount = 4, deadlineTimestamp = 200, goalAchieved = False,
                fundsDisbursed = False, contributions = (\<lambda>_. 0)(3 := 0),
                contributors = [3]\<rparr>,
          2 := \<lparr>initiator = 3, beneficiary = 9, description = ''inside'', goalAmount = 1,
                currentAmount = 0, deadlineTimestamp = 300, goalAchieved = False,
                fundsDisbursed = False, contributions = (\<lambda>_. 0), contributors = []\<rparr>)\<rparr>)"
  by (simp add: reentering_def example_open_eq callback_defs call_defs empty_pool_def)

text \<open>
  The storage that a call with a recipient calling back ends in is the storage of a
  sequence without one: the call itself with an idle recipient, then the recipient's
  unguarded calls as calls of their own. So the storages reached from the constructor
  are the same with and without such recipients.
\<close>

lemma guarded_rejected:
  assumes "entered s" and "\<not> unguarded t"
  shows "snd (exec t s) = s"
proof (cases t s rule: exec_outcomes)
  case (Reverted e)
  then show ?thesis by simp
next
  case (Created sender now ben desc goal deadline evs)
  with assms show ?thesis by simp
next
  case (Contributed sender now poolId amount evs)
  with assms show ?thesis by simp
next
  case (Disbursed sender now poolId sent evs)
  with assms show ?thesis by simp
next
  case (Refunded sender now poolId sent evs)
  with assms show ?thesis by simp
next
  case (OwnerChanged sender now c newOwner evs)
  with assms show ?thesis by auto
qed

lemma unguarded_ignores_guard:
  assumes "unguarded t"
  shows "snd (exec t (s\<lparr>entered := g\<rparr>)) = (snd (exec t s))\<lparr>entered := g\<rparr>"
proof -
  obtain sender now c where t: "t = Tx sender now c" by (cases t)
  with assms show ?thesis
    by (cases c)
      (auto simp: createPool_def transferOwnership_def renounceOwnership_def transact_def
        returning_def store_pool_def Let_def split: option.splits)
qed

lemma exec_keeps_guard: "entered (snd (exec t s)) = entered s"
  by (cases t s rule: exec_outcomes) (simp_all add: store_pool_def)

lemma run_keeps_guard: "entered (run txs s) = entered s"
  by (induction txs arbitrary: s) (simp_all add: exec_keeps_guard del: exec.simps)

lemma leave_guard: "\<not> entered s \<Longrightarrow> s\<lparr>entered := False\<rparr> = s"
  by (cases s) simp

lemma run_entered_flat:
  "entered s \<Longrightarrow> run txs s = (run (filter unguarded txs) (s\<lparr>entered := False\<rparr>))\<lparr>entered := True\<rparr>"
proof (induction txs arbitrary: s)
  case Nil
  then show ?case by (cases s) simp
next
  case (Cons t txs)
  show ?case
  proof (cases "unguarded t")
    case True
    from Cons.prems have s: "s = (s\<lparr>entered := False\<rparr>)\<lparr>entered := True\<rparr>" by (cases s) simp
    have "snd (exec t s) = (snd (exec t (s\<lparr>entered := False\<rparr>)))\<lparr>entered := True\<rparr>"
      using unguarded_ignores_guard [OF True, where s = "s\<lparr>entered := False\<rparr>" and g = True] s
      by simp
    moreover from this have "entered (snd (exec t s))" by simp
    moreover have "(snd (exec t (s\<lparr>entered := False\<rparr>)))\<lparr>entered := False\<rparr>
        = snd (exec t (s\<lparr>entered := False\<rparr>))"
      by (rule leave_guard) (simp add: exec_keeps_guard del: exec.simps)
    ultimately show ?thesis using Cons.IH [of "snd (exec t s)"] True
      by (simp del: exec.simps)
  next
    case False
    with Cons.prems guarded_rejected [of s t] Cons.IH [of s] show ?thesis by simp
  qed
qed

lemma claimRefund_to_flat:
  assumes "claimRefund_to sender now recipient poolId s = (Inr r, s')"
  shows "s' = run (Tx sender now (ClaimRefund poolId True)
                   # filter unguarded (nested now (fst recipient))) s"
proof -
  let ?zeroed = "(pools s poolId)\<lparr>contributions := (contributions (pools s poolId))(sender := 0)\<rparr>"
  let ?s1 = "s\<lparr>entered := True, pools := (pools s)(poolId := ?zeroed)\<rparr>"
  let ?s2 = "s\<lparr>pools := (pools s)(poolId := ?zeroed)\<rparr>"
  let ?flat = "filter unguarded (nested now (fst recipient))"
  from claimRefund_to_Inr [OF assms]
  have pre: "\<not> entered s" "initiator (pools s poolId) \<noteq> 0"
      "deadlineTimestamp (pools s poolId) \<le> now" "\<not> goalAchieved (pools s poolId)"
      "contributions (pools s poolId) sender \<noteq> 0"
    and s': "s' = (run (nested now (fst recipient)) ?s1)\<lparr>entered := False\<rparr>"
    by simp_all
  from pre have first: "snd (exec (Tx sender now (ClaimRefund poolId True)) s) = ?s2"
    by (cases s) (simp add: call_defs word_greater_zero_iff)
  have "entered ?s1" by simp
  from run_entered_flat [OF this, of "nested now (fst recipient)"] s'
  have "s' = (run ?flat (?s1\<lparr>entered := False\<rparr>))\<lparr>entered := False\<rparr>" by simp
  moreover from pre(1) have "?s1\<lparr>entered := False\<rparr> = ?s2" by (cases s) simp
  ultimately have "s' = (run ?flat ?s2)\<lparr>entered := False\<rparr>" by simp
  moreover from pre(1) have "\<not> entered (run ?flat ?s2)" by (simp add: run_keeps_guard)
  ultimately have "s' = run ?flat ?s2" by (simp add: leave_guard)
  with first show ?thesis by (simp del: exec.simps)
qed

lemma disburseFunds_to_flat:
  assumes "disburseFunds_to sender now recipient poolId s = (Inr r, s')"
  shows "s' = run (Tx sender now (DisburseFunds poolId True)
                   # filter unguarded (nested now (fst recipient))) s"
proof -
  let ?paid = "(pools s poolId)\<lparr>fundsDisbursed := True\<rparr>"
  let ?s1 = "s\<lparr>entered := True, pools := (pools s)(poolId := ?paid)\<rparr>"
  let ?s2 = "s\<lparr>pools := (pools s)(poolId := ?paid)\<rparr>"
  let ?flat = "filter unguarded (nested now (fst recipient))"
  from assms
  have pre: "\<not> entered s" "initiator (pools s poolId) \<noteq> 0"
      "sender = initiator (pools s poolId) \<or> sender = owner s"
      "goalAchieved (pools s poolId)" "\<not> fundsDisbursed (pools s poolId)"
      "deadlineTimestamp (pools s poolId) \<le> now"
    and s': "s' = (run (nested now (fst recipient)) ?s1)\<lparr>entered := False\<rparr>"
    by (auto simp: disburseFunds_to_def nonReentrant_def disburseFunds_body_def callback_def
        store_pool_def Let_def split: if_splits prod.splits)
  from pre have first: "snd (exec (Tx sender now (DisburseFunds poolId True)) s) = ?s2"
    by (cases s) (auto simp: call_defs)
  have "entered ?s1" by simp
  from run_entered_flat [OF this, of "nested now (fst recipient)"] s'
  have "s' = (run ?flat (?s1\<lparr>entered := False\<rparr>))\<lparr>entered := False\<rparr>" by simp
  moreover from pre(1) have "?s1\<lparr>entered := False\<rparr> = ?s2" by (cases s) simp
  ultimately have "s' = (run ?flat ?s2)\<lparr>entered := False\<rparr>" by simp
  moreover from pre(1) have "\<not> entered (run ?flat ?s2)" by (simp add: run_keeps_guard)
  ultimately have "s' = run ?flat ?s2" by (simp add: leave_guard)
  with first show ?thesis by (simp del: exec.simps)
qed

subsection \<open>The balance covers the escrow\<close>







lemma ledger_sum_cong:
  "contributions P' = contributions P \<Longrightarrow> contributors P' = contributors P
     \<Longrightarrow> ledger_sum P' = ledger_sum P"
  by (simp add: ledger_sum_def)





subsection \<open>Single calls, on any storage\<close>

lemma claimRefund_on_achieved:
  assumes "\<not> entered s"
    and "initiator (pools s poolId) \<noteq> 0"
    and "goalAchieved (pools s poolId)"
  shows "fst (claimRefund sender now sent poolId s) =
           (if deadlineTimestamp (pools s poolId) \<le> now then Inl GoalWasAchieved
            else Inl DeadlineNotReached)"
  using assms
  by (simp add: claimRefund_def nonReentrant_def claimRefund_body_def plain_transfer_def Let_def)

lemma disburseFunds_early:
  assumes "\<not> entered s"
    and "initiator (pools s poolId) \<noteq> 0"
    and "goalAchieved (pools s poolId)"
    and "\<not> fundsDisbursed (pools s poolId)"
    and "sender = initiator (pools s poolId) \<or> sender = owner s"
    and "now < deadlineTimestamp (pools s poolId)"
  shows "fst (disburseFunds sender now sent poolId s) = Inl DeadlineNotReached
       \<and> exec (Tx sender now (DisburseFunds poolId sent)) s = (Inl DeadlineNotReached, s)"
  using assms
  by (auto simp: disburseFunds_def nonReentrant_def disburseFunds_body_def plain_transfer_def transact_def
      returning_def Let_def)


subsection \<open>Refunds on an achieved pool\<close>

text \<open>
  C1 (as amended). After any sequence of calls on a freshly deployed contract, a
  \<open>claimRefund\<close> call on a pool whose \<open>goalAchieved\<close> flag is true is rejected, and
  the deadline decides with what: with \<open>GoalWasAchieved\<close> when the current time is at
  or past \<open>deadlineTimestamp\<close>, with \<open>DeadlineNotReached\<close> when it is before. The
  source checks the deadline first.
\<close>

theorem claimRefund_goal_achieved:
  assumes "s = run txs (constructor deployer)"
    and "goalAchieved (pools s poolId)"
  shows "fst (claimRefund sender now sent poolId s) =
           (if deadlineTimestamp (pools s poolId) \<le> now then Inl GoalWasAchieved
            else Inl DeadlineNotReached)"
proof -
  from assms(1) have "consistent s" by (simp add: consistent_reached)
  with assms(2) have "\<not> entered s" and "initiator (pools s poolId) \<noteq> 0"
    by (simp_all add: consistent_def)
  then show ?thesis using assms(2) by (rule claimRefund_on_achieved)
qed

theorem claimRefund_goal_achieved_witness:
  "example_achieved = run achieved_trace (constructor 5)
   \<and> goalAchieved (pools example_achieved 1)
   \<and> fst (claimRefund 3 200 True 1 example_achieved) = Inl GoalWasAchieved
   \<and> fst (claimRefund 3 199 True 1 example_achieved) = Inl DeadlineNotReached"
proof -
  have r: "example_achieved = run achieved_trace (constructor 5)"
    by (simp add: example_achieved_def)
  have g: "goalAchieved (pools example_achieved 1)" by (simp add: example_achieved_eq)
  have "fst (claimRefund 3 200 True 1 example_achieved) = Inl GoalWasAchieved"
    using claimRefund_goal_achieved [OF r g, of 3 200 True] by (simp add: example_achieved_eq)
  moreover have "fst (claimRefund 3 199 True 1 example_achieved) = Inl DeadlineNotReached"
    using claimRefund_goal_achieved [OF r g, of 3 199 True] by (simp add: example_achieved_eq)
  ultimately show ?thesis using r g by blast
qed

text \<open>
  C1 as stated fails: after \<open>achieved_trace\<close> pool 1 has reached its goal, and
  contributor 3 claiming a refund at time 150, before the deadline 200, is not rejected
  with \<open>GoalWasAchieved\<close>.
\<close>

theorem claimRefund_goal_achieved_counterexample:
  "example_achieved = run achieved_trace (constructor 5)
   \<and> goalAchieved (pools example_achieved 1)
   \<and> fst (claimRefund 3 150 True 1 example_achieved) = Inl DeadlineNotReached
   \<and> fst (claimRefund 3 150 True 1 example_achieved) \<noteq> Inl GoalWasAchieved"
proof -
  have r: "example_achieved = run achieved_trace (constructor 5)"
    by (simp add: example_achieved_def)
  have g: "goalAchieved (pools example_achieved 1)" by (simp add: example_achieved_eq)
  have e: "fst (claimRefund 3 150 True 1 example_achieved) = Inl DeadlineNotReached"
    by (simp add: example_achieved_eq call_defs)
  then have "fst (claimRefund 3 150 True 1 example_achieved) \<noteq> Inl GoalWasAchieved"
    by simp
  with r g e show ?thesis by blast
qed

subsection \<open>The aggregate of a pool\<close>

text \<open>
  C2. After any sequence of calls on a freshly deployed contract, the \<open>currentAmount\<close>
  of every pool is the sum (of natural numbers, nothing wraps) of the values attached to
  the accepted \<open>contribute\<close> calls for that pool. A successful \<open>claimRefund\<close> leaves
  the caller's ledger entry at zero and the \<open>currentAmount\<close> of every pool as it was.
\<close>

theorem currentAmount_sums_contributions:
  "unat (currentAmount (pools (run txs (constructor deployer)) poolId))
     = contributed poolId txs (constructor deployer)
   \<and> (\<forall>r s'. claimRefund sender now sent p s = (Inr r, s') \<longrightarrow>
         contributions (pools s' p) sender = 0
         \<and> (\<forall>q. currentAmount (pools s' q) = currentAmount (pools s q)))"
proof -
  have "unat (currentAmount (pools (run txs (constructor deployer)) poolId))
     = contributed poolId txs (constructor deployer)"
    using currentAmount_run [OF constructor_unused, of txs deployer poolId]
    by (simp add: constructor_def empty_pool_def)
  moreover have "\<forall>r s'. claimRefund sender now sent p s = (Inr r, s') \<longrightarrow>
         contributions (pools s' p) sender = 0
         \<and> (\<forall>q. currentAmount (pools s' q) = currentAmount (pools s q))"
    by (auto dest!: claimRefund_Inr simp: store_pool_def)
  ultimately show ?thesis by blast
qed

theorem currentAmount_sums_contributions_witness:
  "unat (currentAmount (pools (run refund_trace (constructor 5)) 1)) = 4
   \<and> contributed 1 refund_trace (constructor 5) = 4
   \<and> claimRefund 3 200 True 1 example_open = (Inr ((), [RefundClaimed 1 3 4]), example_refunded)
   \<and> contributions (pools example_open 1) 3 = 4
   \<and> contributions (pools example_refunded 1) 3 = 0
   \<and> currentAmount (pools example_refunded 1) = currentAmount (pools example_open 1)"
  using currentAmount_sums_contributions [of refund_trace 5 1 3 200 True 1 example_open]
    example_claimRefund refund_trace_contributed
  by (simp add: example_open_eq)

subsection \<open>Accepting a contribution\<close>



text \<open>
  The balance matters to the model, where a call may carry any \<open>uint256\<close>:
  \<open>large_trace\<close> gives pool 1 the goal \<open>2^256 - 1\<close> and a first contribution of
  \<open>2^256 - 2\<close>. A further contribution of 2, which the balance cannot take, would reach
  the checked addition and its panic.
\<close>

lemma value_beyond_balance:
  "example_large = run large_trace (constructor 5)
   \<and> balance 0 large_trace (constructor 5) + int (unat (2 :: uint256)) = 2 ^ 256
   \<and> fst (contribute 4 120 2 1 example_large) = Inl ArithmeticOverflow"
proof -
  have r: "example_large = run large_trace (constructor 5)" by (simp add: example_large_def)
  have c: "balance 0 large_trace (constructor 5) + int (unat (2 :: uint256)) = 2 ^ 256"
    by (simp add: large_trace_def accepted_def constructor_def empty_pool_def call_defs)
  have e: "fst (contribute 4 120 2 1 example_large) = Inl ArithmeticOverflow"
    by (simp add: example_large_eq call_defs)
  from r c e show ?thesis by blast
qed

subsection \<open>Contributors are listed once\<close>

text \<open>
  C4. After any sequence of calls on a freshly deployed contract whose block times do not
  run backwards, no address appears twice in the \<open>contributors\<close> list of any pool,
  however many contributions it makes and also after a refund has zeroed its ledger
  entry.
\<close>

theorem contributors_distinct:
  assumes "chronological t txs"
  shows "distinct (contributors (pools (run txs (constructor deployer)) poolId))"
  using contributors_run [of "constructor deployer" t txs poolId] assms
  by (simp add: constructor_def empty_pool_def)

theorem contributors_distinct_witness:
  "chronological 0 repeat_trace
   \<and> contributors (pools (run repeat_trace (constructor 5)) 1) = [3, 4]
   \<and> contributions (pools (run repeat_trace (constructor 5)) 1) 3 = 0
   \<and> distinct (contributors (pools (run repeat_trace (constructor 5)) 1))"
proof -
  have h: "chronological 0 repeat_trace" by (simp add: repeat_trace_def)
  from contributors_distinct [OF h, of 5 1] h repeat_trace_contributors show ?thesis by simp
qed

subsection \<open>A failed transfer\<close>

text \<open>
  C5. When the outbound transfer of \<open>disburseFunds\<close> or \<open>claimRefund\<close> fails, the
  call is reverted and the storage is what it was before the call. Where every
  \<open>require\<close> before the transfer passes, the body had already set \<open>fundsDisbursed\<close>
  (respectively zeroed the caller's ledger entry) when the transfer failed; after the
  revert the flag is false again (respectively the entry has its prior value).
\<close>

theorem failed_transfer_reverts:
  "(\<exists>e. exec (Tx sender now (DisburseFunds poolId False)) s = (Inl e, s))
   \<and> (\<exists>e. exec (Tx sender now (ClaimRefund poolId False)) s = (Inl e, s))
   \<and> (\<not> entered s \<and> initiator (pools s poolId) \<noteq> 0
        \<and> (sender = initiator (pools s poolId) \<or> sender = owner s)
        \<and> goalAchieved (pools s poolId) \<and> \<not> fundsDisbursed (pools s poolId)
        \<and> deadlineTimestamp (pools s poolId) \<le> now
      \<longrightarrow> (\<exists>mid. disburseFunds sender now False poolId s = (Inl TransferFailed, mid)
                 \<and> fundsDisbursed (pools mid poolId))
          \<and> exec (Tx sender now (DisburseFunds poolId False)) s = (Inl TransferFailed, s)
          \<and> \<not> fundsDisbursed (pools (snd (exec (Tx sender now (DisburseFunds poolId False)) s)) poolId))
   \<and> (\<not> entered s \<and> initiator (pools s poolId) \<noteq> 0
        \<and> deadlineTimestamp (pools s poolId) \<le> now \<and> \<not> goalAchieved (pools s poolId)
        \<and> contributions (pools s poolId) sender > 0
      \<longrightarrow> (\<exists>mid. claimRefund sender now False poolId s = (Inl RefundFailed, mid)
                 \<and> contributions (pools mid poolId) sender = 0)
          \<and> exec (Tx sender now (ClaimRefund poolId False)) s = (Inl RefundFailed, s)
          \<and> contributions (pools (snd (exec (Tx sender now (ClaimRefund poolId False)) s)) poolId) sender
              = contributions (pools s poolId) sender)"
  by (auto simp: call_defs)

theorem failed_transfer_reverts_witness:
  "goalAchieved (pools example_achieved 1) \<and> \<not> fundsDisbursed (pools example_achieved 1)
   \<and> (\<exists>mid. disburseFunds 7 200 False 1 example_achieved = (Inl TransferFailed, mid)
         \<and> fundsDisbursed (pools mid 1))
   \<and> exec (Tx 7 200 (DisburseFunds 1 False)) example_achieved = (Inl TransferFailed, example_achieved)
   \<and> contributions (pools example_open 1) 3 = 4
   \<and> (\<exists>mid. claimRefund 3 200 False 1 example_open = (Inl RefundFailed, mid)
         \<and> contributions (pools mid 1) 3 = 0)
   \<and> exec (Tx 3 200 (ClaimRefund 1 False)) example_open = (Inl RefundFailed, example_open)"
  using failed_transfer_reverts [of 7 200 1 example_achieved]
    failed_transfer_reverts [of 3 200 1 example_open]
  by (simp add: example_achieved_eq example_open_eq)

subsection \<open>Pool ids are sequential\<close>

text \<open>
  C6. On a freshly deployed contract the ids returned by the successful \<open>createPool\<close>
  calls of any sequence are 1, 2, 3, ... in order: the N-th returns N. A \<open>createPool\<close>
  with a zero beneficiary is rejected with \<open>InvalidBeneficiary\<close>, and every rejected
  \<open>createPool\<close> leaves the whole storage, the counter included, as it was and returns
  no id.
\<close>

theorem createPool_ids_sequential:
  "map unat (created_ids txs (constructor deployer))
     = [1 ..< Suc (length (created_ids txs (constructor deployer)))]
   \<and> (\<forall>n < length (created_ids txs (constructor deployer)).
         unat (created_ids txs (constructor deployer) ! n) = n + 1)
   \<and> createPool sender now 0 desc goal deadline s = (Inl InvalidBeneficiary, s)
   \<and> exec (Tx sender now (CreatePool 0 desc goal deadline)) s = (Inl InvalidBeneficiary, s)
   \<and> (\<forall>e s'. createPool sender now ben desc goal deadline s = (Inl e, s') \<longrightarrow> s' = s)
   \<and> (\<forall>e s'. exec (Tx sender now (CreatePool ben desc goal deadline)) s = (Inl e, s')
         \<longrightarrow> s' = s \<and> poolIdCounter s' = poolIdCounter s
             \<and> created_ids [Tx sender now (CreatePool ben desc goal deadline)] s = [])"
proof -
  let ?ids = "created_ids txs (constructor deployer)"
  have ids: "map unat ?ids = [1 ..< Suc (length ?ids)]"
    using created_ids_from [of txs "constructor deployer"] by (simp add: constructor_def)
  have nth: "\<forall>n < length ?ids. unat (?ids ! n) = n + 1"
  proof (intro allI impI)
    fix n assume n: "n < length ?ids"
    then have "unat (?ids ! n) = map unat ?ids ! n" by simp
    also have "\<dots> = [1 ..< Suc (length ?ids)] ! n" by (simp only: ids)
    also from n have "\<dots> = n + 1" by (simp del: upt_Suc)
    finally show "unat (?ids ! n) = n + 1" .
  qed
  have rejected: "createPool sender now 0 desc goal deadline s = (Inl InvalidBeneficiary, s)"
    by (simp add: createPool_def)
  then have rejected_tx:
    "exec (Tx sender now (CreatePool 0 desc goal deadline)) s = (Inl InvalidBeneficiary, s)"
    by (simp add: transact_def returning_def)
  have unchanged: "\<forall>e s'. createPool sender now ben desc goal deadline s = (Inl e, s') \<longrightarrow> s' = s"
    by (blast dest: createPool_Inl)
  have unchanged_tx:
    "\<forall>e s'. exec (Tx sender now (CreatePool ben desc goal deadline)) s = (Inl e, s')
         \<longrightarrow> s' = s \<and> poolIdCounter s' = poolIdCounter s
             \<and> created_ids [Tx sender now (CreatePool ben desc goal deadline)] s = []"
    by (auto dest: transact_Inl)
  from ids nth rejected rejected_tx unchanged unchanged_tx show ?thesis by blast
qed

theorem createPool_ids_sequential_witness:
  "created_ids create_trace (constructor 5) = [1, 2, 3]
   \<and> map unat (created_ids create_trace (constructor 5)) = [1, 2, 3]
   \<and> unat (created_ids create_trace (constructor 5) ! 2) = 3
   \<and> exec (Tx 7 101 (CreatePool 0 ''rejected'' 10 200)) example_created
       = (Inl InvalidBeneficiary, example_created)
   \<and> poolIdCounter (snd (exec (Tx 7 101 (CreatePool 0 ''rejected'' 10 200)) example_created)) = 2"
  using createPool_ids_sequential [of create_trace 5 7 101 "''rejected''" 10 200 example_created 0]
    create_trace_ids
  by (simp add: example_created_eq)

subsection \<open>Disbursement before the deadline\<close>

text \<open>
  C7. After any sequence of calls on a freshly deployed contract, for a pool with
  \<open>goalAchieved\<close> true and \<open>fundsDisbursed\<close> false, a \<open>disburseFunds\<close> call by the
  pool's initiator or by the contract owner, made strictly before \<open>deadlineTimestamp\<close>,
  is rejected with \<open>DeadlineNotReached\<close>, and the storage is left as it was.
\<close>

theorem disburseFunds_before_deadline:
  assumes "s = run txs (constructor deployer)"
    and "goalAchieved (pools s poolId)"
    and "\<not> fundsDisbursed (pools s poolId)"
    and "sender = initiator (pools s poolId) \<or> sender = owner s"
    and "now < deadlineTimestamp (pools s poolId)"
  shows "fst (disburseFunds sender now sent poolId s) = Inl DeadlineNotReached
       \<and> exec (Tx sender now (DisburseFunds poolId sent)) s = (Inl DeadlineNotReached, s)"
proof -
  from assms(1) have "consistent s" by (simp add: consistent_reached)
  with assms(2) have "\<not> entered s" and "initiator (pools s poolId) \<noteq> 0"
    by (simp_all add: consistent_def)
  then show ?thesis using assms(2-5) by (rule disburseFunds_early)
qed

theorem disburseFunds_before_deadline_witness:
  "example_achieved = run achieved_trace (constructor 5)
   \<and> goalAchieved (pools example_achieved 1) \<and> \<not> fundsDisbursed (pools example_achieved 1)
   \<and> initiator (pools example_achieved 1) = 7 \<and> owner example_achieved = 5
   \<and> (150 :: uint256) < deadlineTimestamp (pools example_achieved 1)
   \<and> fst (disburseFunds 7 150 True 1 example_achieved) = Inl DeadlineNotReached
   \<and> fst (disburseFunds 5 150 True 1 example_achieved) = Inl DeadlineNotReached
   \<and> exec (Tx 7 150 (DisburseFunds 1 True)) example_achieved
       = (Inl DeadlineNotReached, example_achieved)"
proof -
  have r: "example_achieved = run achieved_trace (constructor 5)"
    by (simp add: example_achieved_def)
  have pre: "goalAchieved (pools example_achieved 1) \<and> \<not> fundsDisbursed (pools example_achieved 1)
      \<and> initiator (pools example_achieved 1) = 7 \<and> owner example_achieved = 5
      \<and> (150 :: uint256) < deadlineTimestamp (pools example_achieved 1)"
    by (simp add: example_achieved_eq)
  have by_initiator: "fst (disburseFunds 7 150 True 1 example_achieved) = Inl DeadlineNotReached
      \<and> exec (Tx 7 150 (DisburseFunds 1 True)) example_achieved
          = (Inl DeadlineNotReached, example_achieved)"
    using disburseFunds_before_deadline [OF r, of 1 7 150 True] pre by simp
  have by_owner: "fst (disburseFunds 5 150 True 1 example_achieved) = Inl DeadlineNotReached"
    using disburseFunds_before_deadline [OF r, of 1 5 150 True] pre by simp
  from r pre by_initiator by_owner show ?thesis by blast
qed

subsection \<open>The address of a deployment\<close>

text \<open>
  C8. For every bytecode and salt, \<open>computeAddress\<close> equals \<open>computeAddressFromHash\<close>
  at the hash of the bytecode, both are the hash of the prefix byte \<open>0xff\<close>, the
  factory's address, the salt and the hash of the bytecode, truncated to 160 bits, and a
  successful \<open>deploy\<close> returns that address.
\<close>

theorem computeAddress_deterministic:
  "computeAddress keccak256 this bytecode salt
     = computeAddressFromHash keccak256 this (keccak256 bytecode) salt
   \<and> computeAddress keccak256 this bytecode salt
     = ucast (keccak256 ([0xff] @ to_bytes 20 this @ to_bytes 32 salt
                           @ to_bytes 32 (keccak256 bytecode)))
   \<and> (\<forall>a evs.
         fst (deploy keccak256 this occupied init_ok bytecode salt) = Inr (a, evs)
         \<longrightarrow> a = computeAddress keccak256 this bytecode salt
             \<and> a = computeAddressFromHash keccak256 this (keccak256 bytecode) salt)"
  by (auto simp: computeAddress_def computeAddressFromHash_def encodePacked_def deploy_def
      create2_def create2_target Let_def split: if_splits)

theorem computeAddress_deterministic_witness:
  "fst (deploy toy_hash 1 (\<lambda>_. False) True [3, 4] 2) = Inr (772, [ContractDeployed 772 2])
   \<and> computeAddress toy_hash 1 [3, 4] 2 = 772
   \<and> computeAddressFromHash toy_hash 1 (toy_hash [3, 4]) 2 = 772"
proof -
  have deployed:
    "fst (deploy toy_hash 1 (\<lambda>_. False) True [3, 4] 2) = Inr (772, [ContractDeployed 772 2])"
    by code_simp
  from computeAddress_deterministic [of toy_hash 1 "[3, 4]" 2 "\<lambda>_. False" True] deployed
  show ?thesis by simp
qed

subsection \<open>What a refund writes\<close>

text \<open>
  C9 (as amended). A successful \<open>claimRefund\<close> sets the caller's ledger entry in that
  pool to zero, and that is the only ledger entry of any pool that changes. Of every
  pool with an id below the counter (after any sequence of calls these are the pools
  that exist, lemma \<open>existing_below_counter\<close>) the initiator, beneficiary, description,
  goalAmount, currentAmount, deadlineTimestamp, goalAchieved, fundsDisbursed and
  contributors list are unchanged, whatever the refunded address does with the control
  the transfer hands it; the guard is as it was and the counter has not decreased.
  When the refunded address makes no call back into the contract, the whole storage
  but that one entry is unchanged.
\<close>

theorem claimRefund_frame:
  assumes "claimRefund_to sender now recipient poolId s = (Inr r, s')"
  shows "entered s' = entered s
     \<and> poolIdCounter s \<le> poolIdCounter s'
     \<and> (\<forall>p a. contributions (pools s' p) a
           = (if p = poolId \<and> a = sender then 0 else contributions (pools s p) a))
     \<and> (\<forall>p. p < poolIdCounter s \<longrightarrow>
           initiator (pools s' p) = initiator (pools s p)
           \<and> beneficiary (pools s' p) = beneficiary (pools s p)
           \<and> description (pools s' p) = description (pools s p)
           \<and> goalAmount (pools s' p) = goalAmount (pools s p)
           \<and> currentAmount (pools s' p) = currentAmount (pools s p)
           \<and> deadlineTimestamp (pools s' p) = deadlineTimestamp (pools s p)
           \<and> goalAchieved (pools s' p) = goalAchieved (pools s p)
           \<and> fundsDisbursed (pools s' p) = fundsDisbursed (pools s p)
           \<and> contributors (pools s' p) = contributors (pools s p))
     \<and> (fst recipient = [] \<longrightarrow>
           s' = s\<lparr>pools := (pools s)(poolId := (pools s poolId)
                  \<lparr>contributions := (contributions (pools s poolId))(sender := 0)\<rparr>)\<rparr>)"
proof -
  let ?zeroed = "(pools s poolId)\<lparr>contributions := (contributions (pools s poolId))(sender := 0)\<rparr>"
  let ?s1 = "s\<lparr>entered := True, pools := (pools s)(poolId := ?zeroed)\<rparr>"
  from claimRefund_to_Inr [OF assms]
  have guard: "\<not> entered s"
    and s': "s' = (run (nested now (fst recipient)) ?s1)\<lparr>entered := False\<rparr>"
    by simp_all
  have "entered ?s1" by simp
  note inner = entered_run [OF this, of "nested now (fst recipient)"]
  from guard s' have "entered s' = entered s" by simp
  moreover from inner s' have "poolIdCounter s \<le> poolIdCounter s'" by simp
  moreover from inner s' have "\<forall>p a. contributions (pools s' p) a
           = (if p = poolId \<and> a = sender then 0 else contributions (pools s p) a)"
    by simp
  moreover from inner s' have "\<forall>p. p < poolIdCounter s \<longrightarrow>
           initiator (pools s' p) = initiator (pools s p)
           \<and> beneficiary (pools s' p) = beneficiary (pools s p)
           \<and> description (pools s' p) = description (pools s p)
           \<and> goalAmount (pools s' p) = goalAmount (pools s p)
           \<and> currentAmount (pools s' p) = currentAmount (pools s p)
           \<and> deadlineTimestamp (pools s' p) = deadlineTimestamp (pools s p)
           \<and> goalAchieved (pools s' p) = goalAchieved (pools s p)
           \<and> fundsDisbursed (pools s' p) = fundsDisbursed (pools s p)
           \<and> contributors (pools s' p) = contributors (pools s p)"
    by simp
  moreover from guard s' have "fst recipient = [] \<longrightarrow>
           s' = s\<lparr>pools := (pools s)(poolId := ?zeroed)\<rparr>"
    by (cases s) (simp add: nested_def)
  ultimately show ?thesis by blast
qed

theorem claimRefund_frame_witness:
  "claimRefund_to 3 200 ([], True) 1 example_open
     = (Inr ((), [RefundClaimed 1 3 4]), example_refunded)
   \<and> example_refunded = example_open\<lparr>pools := (pools example_open)(1 :=
        (pools example_open 1)\<lparr>contributions := (contributions (pools example_open 1))(3 := 0)\<rparr>)\<rparr>
   \<and> fst (claimRefund_to 3 200 reentering 1 example_open)
       = Inr ((), [PoolCreated 2 3 9 ''inside'' 1 300, RefundClaimed 1 3 4])
   \<and> poolIdCounter example_open = 2
   \<and> contributions (pools example_open 1) 3 = 4
   \<and> contributions (pools example_reentered 1) 3 = 0
   \<and> contributors (pools example_reentered 1) = contributors (pools example_open 1)
   \<and> currentAmount (pools example_reentered 1) = currentAmount (pools example_open 1)
   \<and> goalAchieved (pools example_reentered 1) = goalAchieved (pools example_open 1)"
proof -
  have plain: "claimRefund_to 3 200 ([], True) 1 example_open
      = (Inr ((), [RefundClaimed 1 3 4]), example_refunded)"
    by (simp add: claimRefund_to_plain example_claimRefund)
  have again: "claimRefund_to 3 200 reentering 1 example_open
      = (Inr ((), [PoolCreated 2 3 9 ''inside'' 1 300, RefundClaimed 1 3 4]), example_reentered)"
    by (simp add: example_reentered_def example_reentered_eq)
  have counter: "poolIdCounter example_open = 2" "contributions (pools example_open 1) 3 = 4"
    by (simp_all add: example_open_eq)
  from claimRefund_frame [OF plain] claimRefund_frame [OF again] plain again counter
  show ?thesis by simp
qed

text \<open>
  C9 as stated fails: \<open>createPool\<close> carries no \<open>nonReentrant\<close>, so the refunded
  address, here the contract 3, can call it while the transfer gives it control. The
  refund succeeds, and the counter has moved from 2 to 3 and pool 2 has been created.
\<close>

theorem claimRefund_frame_counterexample:
  "fst (claimRefund_to 3 200 reentering 1 example_open)
     = Inr ((), [PoolCreated 2 3 9 ''inside'' 1 300, RefundClaimed 1 3 4])
   \<and> example_reentered = snd (claimRefund_to 3 200 reentering 1 example_open)
   \<and> poolIdCounter example_open = 2 \<and> poolIdCounter example_reentered = 3
   \<and> initiator (pools example_open 2) = 0 \<and> initiator (pools example_reentered 2) = 3
   \<and> pools example_reentered 2 \<noteq> pools example_open 2"
proof -
  have e: "example_reentered = snd (claimRefund_to 3 200 reentering 1 example_open)"
    by (simp add: example_reentered_def)
  have after: "fst (claimRefund_to 3 200 reentering 1 example_open)
       = Inr ((), [PoolCreated 2 3 9 ''inside'' 1 300, RefundClaimed 1 3 4])
     \<and> poolIdCounter example_reentered = 3 \<and> initiator (pools example_reentered 2) = 3"
    by (simp add: example_reentered_def example_reentered_eq)
  have before: "poolIdCounter example_open = 2 \<and> initiator (pools example_open 2) = 0"
    by (simp add: example_open_eq empty_pool_def)
  from after before have "pools example_reentered 2 \<noteq> pools example_open 2" by auto
  with e after before show ?thesis by blast
qed

subsection \<open>Reading a ledger entry\<close>

text \<open>
  C10. On an existing pool \<open>getContribution\<close> does not fail: it returns the ledger
  entry, which is 0 right after the address's successful refund and, on a freshly
  deployed contract, 0 for an address with no accepted contribution to that pool. Its only
  failure is \<open>PoolNotFound\<close>; where no call is sent from the zero address it fails
  exactly on the ids that no \<open>createPool\<close> call has returned.
\<close>

theorem getContribution_total_on_pools:
  "(initiator (pools s poolId) \<noteq> 0
      \<longrightarrow> getContribution poolId a s = Inr (contributions (pools s poolId) a))
   \<and> (\<forall>e. getContribution poolId a s = Inl e
          \<longrightarrow> e = PoolNotFound \<and> initiator (pools s poolId) = 0)
   \<and> (\<forall>r s'. claimRefund a now sent poolId s = (Inr r, s')
          \<longrightarrow> getContribution poolId a s' = Inr 0)
   \<and> (real_senders txs \<longrightarrow>
         (getContribution poolId a (run txs (constructor deployer)) = Inl PoolNotFound
            \<longleftrightarrow> poolId \<notin> set (created_ids txs (constructor deployer)))
       \<and> (poolId \<in> set (created_ids txs (constructor deployer))
            \<and> \<not> has_contributed a poolId txs (constructor deployer)
          \<longrightarrow> getContribution poolId a (run txs (constructor deployer)) = Inr 0))"
proof -
  let ?init = "constructor deployer"
  have exists: "initiator (pools s poolId) \<noteq> 0
      \<longrightarrow> getContribution poolId a s = Inr (contributions (pools s poolId) a)"
    by (simp add: getContribution_def)
  have only: "\<forall>e. getContribution poolId a s = Inl e
          \<longrightarrow> e = PoolNotFound \<and> initiator (pools s poolId) = 0"
    by (auto simp: getContribution_def Let_def split: if_splits)
  have refunded: "\<forall>r s'. claimRefund a now sent poolId s = (Inr r, s')
          \<longrightarrow> getContribution poolId a s' = Inr 0"
    by (auto dest!: claimRefund_Inr simp: getContribution_def store_pool_def)
  have reach: "(getContribution poolId a (run txs ?init) = Inl PoolNotFound
            \<longleftrightarrow> poolId \<notin> set (created_ids txs ?init))
       \<and> (poolId \<in> set (created_ids txs ?init) \<and> \<not> has_contributed a poolId txs ?init
          \<longrightarrow> getContribution poolId a (run txs ?init) = Inr 0)"
    if real: "real_senders txs"
  proof -
    have used: "initiator (pools (run txs ?init) poolId) \<noteq> 0
        \<longleftrightarrow> poolId \<in> set (created_ids txs ?init)"
      using initiator_run [OF constructor_unused real, of deployer poolId]
      by (simp add: constructor_def empty_pool_def)
    have zero: "contributions (pools (run txs ?init) poolId) a = 0"
      if "\<not> has_contributed a poolId txs ?init"
      using ledger_run [of ?init poolId a txs] that by (simp add: constructor_def empty_pool_def)
    from used zero show ?thesis by (auto simp: getContribution_def Let_def)
  qed
  from exists only refunded reach show ?thesis by blast
qed

theorem getContribution_total_on_pools_witness:
  "real_senders refund_trace
   \<and> created_ids refund_trace (constructor 5) = [1]
   \<and> \<not> has_contributed 8 1 refund_trace (constructor 5)
   \<and> getContribution 1 8 (run refund_trace (constructor 5)) = Inr 0
   \<and> getContribution 2 8 (run refund_trace (constructor 5)) = Inl PoolNotFound
   \<and> claimRefund 3 200 True 1 example_open = (Inr ((), [RefundClaimed 1 3 4]), example_refunded)
   \<and> getContribution 1 3 example_open = Inr 4
   \<and> getContribution 1 3 example_refunded = Inr 0"
proof -
  have real: "real_senders refund_trace" by (simp add: refund_trace_def real_senders_def)
  have ids: "created_ids refund_trace (constructor 5) = [1]"
    by (simp add: refund_trace_def constructor_def empty_pool_def call_defs)
  have never: "\<not> has_contributed 8 1 refund_trace (constructor 5)"
    by (simp add: refund_trace_def accepted_def constructor_def empty_pool_def call_defs)
  from getContribution_total_on_pools [of example_open 1 3 200 True refund_trace 5]
    getContribution_total_on_pools [of example_open 1 8 200 True refund_trace 5]
    getContribution_total_on_pools [of example_open 2 8 200 True refund_trace 5]
    real ids never example_claimRefund
  show ?thesis by (simp add: example_open_eq)
qed

end
